theory Spec2Isabelle
  imports
    Main
    "HOL-Library.Multiset"
    "HOL-Library.Sublist"
    "HOL-Library.Char_ord"
    "HOL-Library.List_Lexorder"
begin

section \<open>The logger of internal/logger: data model\<close>

text \<open>
  The development embeds \<^verbatim>\<open>internal/logger/logger.go\<close>: the level filter, the
  sink (console or a dated file), rotation, retention cleanup and the process-wide
  singleton. Go's \<^verbatim>\<open>LogLevel\<close> is an \<^verbatim>\<open>int\<close>; no arithmetic is done on it, so it is
  modelled as an unbounded integer.
\<close>

type_synonym LogLevel = int

definition DebugLevel :: LogLevel where "DebugLevel = 0"
definition InfoLevel :: LogLevel where "InfoLevel = 1"
definition WarnLevel :: LogLevel where "WarnLevel = 2"
definition ErrorLevel :: LogLevel where "ErrorLevel = 3"

record LoggerConfig =
  Level :: LogLevel
  OutputType :: string
  LogDir :: string
  FilePrefix :: string
  RetentionDays :: int

text \<open>
  A \<^verbatim>\<open>*log.Logger\<close> is determined by the writer it was built on: the standard
  output, or an \<^verbatim>\<open>*os.File\<close>, which is identified by a handle number.
\<close>

datatype sink = Stdout | FileSink nat

text \<open>
  The struct \<^verbatim>\<open>Logger\<close>. The mutex carries no data in a sequential run and is
  treated in the section on lock discipline. \<open>cancelFn\<close> says that the field
  \<^verbatim>\<open>cancel\<close> is not nil, \<open>ctxDone\<close> that the context has been cancelled.
\<close>

record Logger =
  level :: LogLevel
  outputType :: string
  logDir :: string
  filePrefix :: string
  retentionDays :: int
  logger :: "sink option"
  currentFile :: "nat option"
  cancelFn :: bool
  ctxDone :: bool

section \<open>The operating system as the logger sees it\<close>

text \<open>
  A directory is the list of its direct entries in the order \<^verbatim>\<open>os.ReadDir\<close> returns
  them. An entry is a directory or a regular file with a modification time (an instant,
  as an integer) and the lines appended to it so far. Symbolic links are not modelled, so
  \<^verbatim>\<open>os.Stat\<close> and \<^verbatim>\<open>DirEntry.Info\<close> agree on every entry.

  A file is named by its directory and its entry name: \<^verbatim>\<open>filepath.Join(dir, name)\<close> is
  the pair \<open>(dir, name)\<close>. An open \<^verbatim>\<open>*os.File\<close> is a handle bound to such a pair; a
  closed or unknown handle is bound to nothing. The \<open>fail\<close> fields say which system calls
  the environment refuses (permissions, a full disk, ...). \<open>unlinked\<close> is the history of
  the files \<^verbatim>\<open>os.Remove\<close> has deleted, oldest call first; \<open>stderr\<close> takes what the
  package-level \<^verbatim>\<open>log.Printf\<close> prints.
\<close>

record entry =
  eName :: string
  eIsDir :: bool
  eModTime :: int
  eData :: "string list"

record world =
  dirs :: "string \<Rightarrow> entry list option"
  fds :: "nat \<Rightarrow> (string \<times> string) option"
  nextFd :: nat
  stdout :: "string list"
  stderr :: "string list"
  unlinked :: "(string \<times> string) list"
  now :: int
  failMkdir :: "string \<Rightarrow> bool"
  failOpen :: "string \<Rightarrow> string \<Rightarrow> bool"
  failReadDir :: "string \<Rightarrow> bool"
  failInfo :: "string \<Rightarrow> string \<Rightarrow> bool"
  failRemove :: "string \<Rightarrow> string \<Rightarrow> bool"
  failClose :: "nat \<Rightarrow> bool"

text \<open>Appending a line to the regular file \<open>n\<close>: its data grows, its time becomes \<open>t\<close>.\<close>

definition appendLine :: "string \<Rightarrow> string \<Rightarrow> int \<Rightarrow> entry \<Rightarrow> entry" where
  "appendLine n ln t e =
     (if eName e = n \<and> \<not> eIsDir e then e\<lparr>eModTime := t, eData := eData e @ [ln]\<rparr> else e)"

text \<open>
  \<^verbatim>\<open>(*os.File).Write\<close> on a handle opened with \<^verbatim>\<open>O_APPEND\<close>. On a closed handle it
  returns \<^verbatim>\<open>os.ErrClosed\<close> and writes nothing; \<^verbatim>\<open>log.Logger.Output\<close> hands the error
  back and \<^verbatim>\<open>(*Logger).log\<close> drops it, so the model returns the world only. A file that
  was unlinked while open takes the bytes but no directory shows them.
\<close>

definition fileWrite :: "nat \<Rightarrow> string \<Rightarrow> world \<Rightarrow> world" where
  "fileWrite h ln w =
     (case fds w h of
        None \<Rightarrow> w
      | Some (d, n) \<Rightarrow>
          (case dirs w d of
             None \<Rightarrow> w
           | Some es \<Rightarrow> w\<lparr>dirs := (dirs w)(d \<mapsto> map (appendLine n ln (now w)) es)\<rparr>))"

fun sinkWrite :: "sink \<Rightarrow> string \<Rightarrow> world \<Rightarrow> world" where
  "sinkWrite Stdout ln w = w\<lparr>stdout := stdout w @ [ln]\<rparr>"
| "sinkWrite (FileSink h) ln w = fileWrite h ln w"

text \<open>What a sink has accumulated: the console's lines, or the lines of the file a handle is bound to.\<close>

definition fileData :: "world \<Rightarrow> string \<Rightarrow> string \<Rightarrow> string list option" where
  "fileData w d n =
     (case dirs w d of
        None \<Rightarrow> None
      | Some es \<Rightarrow> map_option eData (find (\<lambda>e. eName e = n \<and> \<not> eIsDir e) es))"

fun sinkOutput :: "world \<Rightarrow> sink \<Rightarrow> string list option" where
  "sinkOutput w Stdout = Some (stdout w)"
| "sinkOutput w (FileSink h) = (case fds w h of None \<Rightarrow> None | Some (d, n) \<Rightarrow> fileData w d n)"

section \<open>The Go runtime: calendar, sort and formatting\<close>

text \<open>
  What the logger takes from the standard library, as parameters:
  \<^item> \<open>midnightOf t\<close> is \<^verbatim>\<open>time.Date(t.Year(), t.Month(), t.Day(), 0, 0, 0, 0, t.Location())\<close>;
  \<^item> \<open>addDays t n\<close> is \<^verbatim>\<open>t.AddDate(0, 0, n)\<close>;
  \<^item> \<open>dateStr t\<close> is \<^verbatim>\<open>t.Format("2006-01-02")\<close>;
  \<^item> \<open>sortSlice key xs\<close> is the slice \<^verbatim>\<open>sort.Slice\<close> leaves when its \<^verbatim>\<open>less(i, j)\<close>
    compares \<open>key (xs ! i) < key (xs ! j)\<close>;
  \<^item> \<open>sprintf format operands\<close> is \<^verbatim>\<open>fmt.Sprintf(format, operands...)\<close>.
  The operands a caller passes (\<^verbatim>\<open>...interface{}\<close>) are strings or integers.
\<close>

datatype operand = Str string | Num int

record runtime =
  midnightOf :: "int \<Rightarrow> int"
  addDays :: "int \<Rightarrow> int \<Rightarrow> int"
  dateStr :: "int \<Rightarrow> string"
  sortSlice :: "(string \<Rightarrow> int) \<Rightarrow> string list \<Rightarrow> string list"
  sprintf :: "string \<Rightarrow> operand list \<Rightarrow> string"

text \<open>
  The documented contract of \<^verbatim>\<open>sort.Slice\<close>: the slice is rearranged into ascending
  order. The documentation adds that the sort is not guaranteed to be stable.
\<close>

definition sortSliceOk :: "runtime \<Rightarrow> bool" where
  "sortSliceOk rt =
     (\<forall>key xs. mset (sortSlice rt key xs) = mset xs \<and> sorted (map key (sortSlice rt key xs)))"

section \<open>Writing a message\<close>

text \<open>
  \<^verbatim>\<open>(*Logger).log\<close>: the line is
  \<^verbatim>\<open>fmt.Sprintf("[%s] "+format, append([]interface{}{level}, v...)...)\<close>, so the
  severity tag is the first operand of the extended format and the caller's operands
  follow it. The header \<^verbatim>\<open>log.Logger\<close> puts in front of the line (date, time, source
  location) is left out.
\<close>

definition log ::
  "runtime \<Rightarrow> string \<Rightarrow> string \<Rightarrow> operand list \<Rightarrow> Logger \<Rightarrow> world \<Rightarrow> world" where
  "log rt tag format v l w =
     (case logger l of
        None \<Rightarrow> w
      | Some out \<Rightarrow> sinkWrite out (sprintf rt (''[%s] '' @ format) (Str tag # v)) w)"

definition Debug :: "runtime \<Rightarrow> string \<Rightarrow> operand list \<Rightarrow> Logger \<Rightarrow> world \<Rightarrow> world" where
  "Debug rt format v l w = (if level l > DebugLevel then w else log rt ''DEBUG'' format v l w)"

definition Info :: "runtime \<Rightarrow> string \<Rightarrow> operand list \<Rightarrow> Logger \<Rightarrow> world \<Rightarrow> world" where
  "Info rt format v l w = (if level l > InfoLevel then w else log rt ''INFO'' format v l w)"

definition Warn :: "runtime \<Rightarrow> string \<Rightarrow> operand list \<Rightarrow> Logger \<Rightarrow> world \<Rightarrow> world" where
  "Warn rt format v l w = (if level l > WarnLevel then w else log rt ''WARN'' format v l w)"

definition Error :: "runtime \<Rightarrow> string \<Rightarrow> operand list \<Rightarrow> Logger \<Rightarrow> world \<Rightarrow> world" where
  "Error rt format v l w = (if level l > ErrorLevel then w else log rt ''ERROR'' format v l w)"

definition SetLevel :: "LogLevel \<Rightarrow> Logger \<Rightarrow> Logger" where
  "SetLevel lv l = l\<lparr>level := lv\<rparr>"

text \<open>The four severity methods, by name, with the severity and the tag of each.\<close>

datatype severityCall = CallDebug | CallInfo | CallWarn | CallError

fun severity :: "severityCall \<Rightarrow> LogLevel" where
  "severity CallDebug = DebugLevel"
| "severity CallInfo = InfoLevel"
| "severity CallWarn = WarnLevel"
| "severity CallError = ErrorLevel"

fun tagOf :: "severityCall \<Rightarrow> string" where
  "tagOf CallDebug = ''DEBUG''"
| "tagOf CallInfo = ''INFO''"
| "tagOf CallWarn = ''WARN''"
| "tagOf CallError = ''ERROR''"

fun invoke ::
  "runtime \<Rightarrow> severityCall \<Rightarrow> string \<Rightarrow> operand list \<Rightarrow> Logger \<Rightarrow> world \<Rightarrow> world" where
  "invoke rt CallDebug format v l w = Debug rt format v l w"
| "invoke rt CallInfo format v l w = Info rt format v l w"
| "invoke rt CallWarn format v l w = Warn rt format v l w"
| "invoke rt CallError format v l w = Error rt format v l w"

text \<open>
  A logger is open when it has a sink that takes lines: the console, or a handle bound to
  a regular file that its directory lists.
\<close>

definition isOpen :: "Logger \<Rightarrow> world \<Rightarrow> bool" where
  "isOpen l w = (case logger l of None \<Rightarrow> False | Some out \<Rightarrow> sinkOutput w out \<noteq> None)"

definition activeOutput :: "Logger \<Rightarrow> world \<Rightarrow> string list" where
  "activeOutput l w =
     (case logger l of
        None \<Rightarrow> []
      | Some out \<Rightarrow> (case sinkOutput w out of None \<Rightarrow> [] | Some ls \<Rightarrow> ls))"

section \<open>System calls\<close>

text \<open>
  \<^verbatim>\<open>os.MkdirAll\<close>: nothing to do for a directory that exists, otherwise it is created
  empty. Parent directories are not listed: no code of the logger reads them.
\<close>

definition mkdirAll :: "string \<Rightarrow> world \<Rightarrow> world option" where
  "mkdirAll d w =
     (if failMkdir w d then None
      else (case dirs w d of
              Some es \<Rightarrow> Some w
            | None \<Rightarrow> Some (w\<lparr>dirs := (dirs w)(d \<mapsto> [])\<rparr>)))"

text \<open>
  \<^verbatim>\<open>os.OpenFile(path, O_APPEND|O_CREATE|O_WRONLY, 0644)\<close>: an existing regular file is
  opened as it is (nothing is truncated, its time stays), a directory of that name is an
  error, and a missing file is created empty at the current time, at its place in the
  name order of the listing. The result is the fresh handle.
\<close>

definition bindFd :: "string \<Rightarrow> string \<Rightarrow> world \<Rightarrow> nat \<times> world" where
  "bindFd d n w = (nextFd w, w\<lparr>fds := (fds w)(nextFd w \<mapsto> (d, n)), nextFd := Suc (nextFd w)\<rparr>)"

definition openAppend :: "string \<Rightarrow> string \<Rightarrow> world \<Rightarrow> (nat \<times> world) option" where
  "openAppend d n w =
     (if failOpen w d n then None
      else (case dirs w d of
              None \<Rightarrow> None
            | Some es \<Rightarrow>
                (case find (\<lambda>e. eName e = n \<and> \<not> eIsDir e) es of
                   Some e \<Rightarrow> Some (bindFd d n w)
                 | None \<Rightarrow>
                     if n \<in> eName ` set es then None
                     else Some (bindFd d n
                       (w\<lparr>dirs := (dirs w)(d \<mapsto>
                          insort_key eName
                            \<lparr>eName = n, eIsDir = False, eModTime = now w, eData = []\<rparr> es)\<rparr>)))))"

text \<open>
  \<^verbatim>\<open>(*os.File).Close\<close>: the flag says whether it returned no error. It fails on a handle
  that is not open, or when the system refuses; the handle is unusable afterwards
  either way.
\<close>

definition closeFile :: "nat \<Rightarrow> world \<Rightarrow> bool \<times> world" where
  "closeFile h w = (fds w h \<noteq> None \<and> \<not> failClose w h, w\<lparr>fds := (fds w)(h := None)\<rparr>)"

definition readDir :: "world \<Rightarrow> string \<Rightarrow> entry list option" where
  "readDir w d = (if failReadDir w d then None else dirs w d)"

text \<open>\<^verbatim>\<open>os.Remove\<close> of the entry \<open>n\<close> of directory \<open>d\<close>; a success is recorded in \<open>unlinked\<close>.\<close>

definition removeFile :: "string \<Rightarrow> string \<Rightarrow> world \<Rightarrow> world option" where
  "removeFile d n w =
     (if failRemove w d n then None
      else (case dirs w d of
              None \<Rightarrow> None
            | Some es \<Rightarrow>
                if n \<in> eName ` set es
                then Some (w\<lparr>dirs := (dirs w)(d \<mapsto> filter (\<lambda>e. eName e \<noteq> n) es),
                              unlinked := unlinked w @ [(d, n)]\<rparr>)
                else None))"

text \<open>
  The modification time \<^verbatim>\<open>os.Stat\<close> reports for the entry \<open>n\<close> of \<open>d\<close>. The source drops
  the error of \<^verbatim>\<open>os.Stat\<close> and would dereference nil had it failed; it is called on names
  the same run has just listed and read with \<^verbatim>\<open>Info\<close>, where it cannot fail in a sequential
  run, so the two \<open>None\<close> branches are never taken by \<open>cleanupOldLogs\<close>.
\<close>

definition statModTime :: "world \<Rightarrow> string \<Rightarrow> string \<Rightarrow> int" where
  "statModTime w d n =
     (case dirs w d of
        None \<Rightarrow> 0
      | Some es \<Rightarrow> (case find (\<lambda>e. eName e = n) es of None \<Rightarrow> 0 | Some e \<Rightarrow> eModTime e))"

definition warn :: "string \<Rightarrow> world \<Rightarrow> world" where
  "warn ln w = w\<lparr>stderr := stderr w @ [ln]\<rparr>"

definition joinPath :: "string \<Rightarrow> string \<Rightarrow> string" where
  "joinPath d n = d @ ''/'' @ n"

section \<open>Rotation, cleanup and close\<close>

text \<open>
  The stanza shared by \<^verbatim>\<open>setupFileLogger\<close> and \<^verbatim>\<open>Close\<close>: close the current file if
  there is one, warn on \<open>stderr\<close> if that fails, and clear the field.
\<close>

definition closeCurrentFile :: "Logger \<Rightarrow> world \<Rightarrow> Logger \<times> world" where
  "closeCurrentFile l w =
     (case currentFile l of
        None \<Rightarrow> (l, w)
      | Some h \<Rightarrow>
          (case closeFile h w of
             (ok, w') \<Rightarrow>
               (l\<lparr>currentFile := None\<rparr>,
                if ok then w' else warn ''Warning: failed to close log file'' w')))"

datatype error =
  InvalidOutputType string
| LogDirRequired
| FilePrefixRequired
| CreateLogDirFailed
| OpenLogFileFailed
| ReadLogDirFailed
| CleanUpFailed

definition logFileName :: "runtime \<Rightarrow> Logger \<Rightarrow> world \<Rightarrow> string" where
  "logFileName rt l w = filePrefix l @ ''_'' @ dateStr rt (now w) @ ''.log''"

definition setupFileLogger :: "runtime \<Rightarrow> Logger \<Rightarrow> world \<Rightarrow> error option \<times> Logger \<times> world" where
  "setupFileLogger rt l w =
     (case closeCurrentFile l w of
        (l1, w1) \<Rightarrow>
          (case openAppend (logDir l1) (logFileName rt l1 w1) w1 of
             None \<Rightarrow> (Some OpenLogFileFailed, l1, w1)
           | Some (h, w2) \<Rightarrow>
               (None, l1\<lparr>currentFile := Some h, logger := Some (FileSink h)\<rparr>, w2)))"

text \<open>
  The first loop of \<^verbatim>\<open>cleanupOldLogs\<close>: the names of the old files in listing order,
  and the warnings for the entries whose \<^verbatim>\<open>Info\<close> failed.
\<close>

fun scanOld ::
  "world \<Rightarrow> string \<Rightarrow> string \<Rightarrow> int \<Rightarrow> entry list \<Rightarrow> string list \<Rightarrow> string list
     \<Rightarrow> string list \<times> string list" where
  "scanOld w d pre cutoffTime [] oldFiles warns = (oldFiles, warns)"
| "scanOld w d pre cutoffTime (f # fs) oldFiles warns =
     (if eIsDir f then scanOld w d pre cutoffTime fs oldFiles warns
      else if prefix pre (eName f) \<and> suffix ''.log'' (eName f) then
        (if failInfo w d (eName f) then
           scanOld w d pre cutoffTime fs oldFiles
             (warns @ [''Warning: failed to get file info for '' @ eName f])
         else if eModTime f < cutoffTime then
           scanOld w d pre cutoffTime fs (oldFiles @ [eName f]) warns
         else scanOld w d pre cutoffTime fs oldFiles warns)
      else scanOld w d pre cutoffTime fs oldFiles warns)"

text \<open>The last loop: remove each file; warn on failure, log the deletion on success.\<close>

fun deleteOld :: "runtime \<Rightarrow> Logger \<Rightarrow> string list \<Rightarrow> world \<Rightarrow> world" where
  "deleteOld rt l [] w = w"
| "deleteOld rt l (f # fs) w =
     (case removeFile (logDir l) f w of
        None \<Rightarrow>
          deleteOld rt l fs
            (warn (''Warning: failed to delete old log file '' @ joinPath (logDir l) f) w)
      | Some w' \<Rightarrow>
          deleteOld rt l fs
            (log rt ''INFO'' ''Deleted old log file: %s'' [Str (joinPath (logDir l) f)] l w'))"

text \<open>The cutoff: local midnight of today, minus the retention days.\<close>

definition cutoffOf :: "runtime \<Rightarrow> Logger \<Rightarrow> world \<Rightarrow> int" where
  "cutoffOf rt l w = addDays rt (midnightOf rt (now w)) (- retentionDays l)"

definition cleanupOldLogs :: "runtime \<Rightarrow> Logger \<Rightarrow> world \<Rightarrow> error option \<times> world" where
  "cleanupOldLogs rt l w =
     (case readDir w (logDir l) of
        None \<Rightarrow> (Some ReadLogDirFailed, w)
      | Some files \<Rightarrow>
          (case scanOld w (logDir l) (filePrefix l @ ''_'') (cutoffOf rt l w) files [] [] of
             (oldFiles, warns) \<Rightarrow>
               (let w1 = w\<lparr>stderr := stderr w @ warns\<rparr>;
                    sorted = sortSlice rt (statModTime w1 (logDir l)) oldFiles
                in (None, deleteOld rt l sorted w1))))"

definition rotateAndCleanup :: "runtime \<Rightarrow> Logger \<Rightarrow> world \<Rightarrow> Logger \<times> world" where
  "rotateAndCleanup rt l w =
     (case setupFileLogger rt l w of
        (err, l1, w1) \<Rightarrow>
          (let w2 = (case err of None \<Rightarrow> w1 | Some e \<Rightarrow> warn ''Error rotating log file'' w1)
           in (case cleanupOldLogs rt l1 w2 of
                 (err2, w3) \<Rightarrow>
                   (l1, case err2 of None \<Rightarrow> w3
                        | Some e \<Rightarrow> warn ''Error cleaning up old logs'' w3))))"

text \<open>
  \<^verbatim>\<open>Close\<close>: fire the cancellation (calling a \<^verbatim>\<open>context.CancelFunc\<close> again does
  nothing), then close and clear the current file.
\<close>

definition Close :: "Logger \<Rightarrow> world \<Rightarrow> Logger \<times> world" where
  "Close l w = closeCurrentFile (if cancelFn l then l\<lparr>ctxDone := True\<rparr> else l) w"

section \<open>The process: logger objects and the global singleton\<close>

text \<open>
  \<^verbatim>\<open>*Logger\<close> values are addresses into a heap of logger objects; \<open>nextAddr\<close> is the
  next address \<^verbatim>\<open>&Logger{...}\<close> allocates. \<open>globalLogger\<close> is the package variable
  (\<open>None\<close> is nil). \<open>tasks\<close> holds the loggers whose goroutine, started by
  \<^verbatim>\<open>scheduleDailyTasks\<close>, has not returned. The two registry mutexes order concurrent
  callers and carry no data in a sequential run.
\<close>

record state =
  os :: world
  heap :: "nat \<Rightarrow> Logger option"
  nextAddr :: nat
  globalLogger :: "nat option"
  tasks :: "nat set"

text \<open>
  \<^verbatim>\<open>InitGlobalLogger\<close>. The object is allocated where the source builds it, so a failed
  construction leaves a cancelled, unpublished object behind (garbage in Go).
\<close>

definition InitGlobalLogger :: "runtime \<Rightarrow> LoggerConfig \<Rightarrow> state \<Rightarrow> (error + nat) \<times> state" where
  "InitGlobalLogger rt config s =
     (case globalLogger s of
        Some g \<Rightarrow> (Inr g, s)
      | None \<Rightarrow>
          (let c1 = (if OutputType config = [] then config\<lparr>OutputType := ''console''\<rparr> else config)
           in if OutputType c1 \<noteq> ''console'' \<and> OutputType c1 \<noteq> ''file''
              then (Inl (InvalidOutputType (OutputType c1)), s)
              else
                (let c2 = (if RetentionDays c1 \<le> 0 then c1\<lparr>RetentionDays := 7\<rparr> else c1)
                 in if OutputType c2 = ''file'' \<and> LogDir c2 = [] then (Inl LogDirRequired, s)
                    else if OutputType c2 = ''file'' \<and> FilePrefix c2 = []
                    then (Inl FilePrefixRequired, s)
                    else
                      (case (if OutputType c2 = ''file'' then mkdirAll (LogDir c2) (os s)
                             else Some (os s)) of
                         None \<Rightarrow> (Inl CreateLogDirFailed, s)
                       | Some w0 \<Rightarrow>
                           (let p = nextAddr s;
                                l = \<lparr>level = Level c2, outputType = OutputType c2,
                                     logDir = LogDir c2, filePrefix = FilePrefix c2,
                                     retentionDays = RetentionDays c2, logger = None,
                                     currentFile = None, cancelFn = True, ctxDone = False\<rparr>;
                                s0 = s\<lparr>os := w0, heap := (heap s)(p \<mapsto> l), nextAddr := Suc p\<rparr>
                            in if OutputType c2 = ''console''
                               then (Inr p, s0\<lparr>heap := (heap s0)(p \<mapsto> l\<lparr>logger := Some Stdout\<rparr>),
                                                globalLogger := Some p\<rparr>)
                               else if OutputType c2 = ''file''
                               then
                                 (case setupFileLogger rt l w0 of
                                    (Some e, l1, w1) \<Rightarrow>
                                      (Inl e, s0\<lparr>os := w1,
                                                  heap := (heap s0)(p \<mapsto> l1\<lparr>ctxDone := True\<rparr>)\<rparr>)
                                  | (None, l1, w1) \<Rightarrow>
                                      (case cleanupOldLogs rt l1 w1 of
                                         (Some e, w2) \<Rightarrow>
                                           (Inl CleanUpFailed,
                                            s0\<lparr>os := w2,
                                                heap := (heap s0)(p \<mapsto> l1\<lparr>ctxDone := True\<rparr>),
                                                tasks := insert p (tasks s0)\<rparr>)
                                       | (None, w2) \<Rightarrow>
                                           (Inr p,
                                            s0\<lparr>os := w2, heap := (heap s0)(p \<mapsto> l1),
                                                tasks := insert p (tasks s0),
                                                globalLogger := Some p\<rparr>)))
                               else (Inr p, s0\<lparr>globalLogger := Some p\<rparr>))))))"

definition GetLogger :: "state \<Rightarrow> nat option" where
  "GetLogger s = globalLogger s"

text \<open>
  A method called through the pointer \<open>p\<close>: the object is read from the heap and written
  back. Every \<^verbatim>\<open>*Logger\<close> that is not nil points to an object, so the \<open>None\<close> branch
  stands for no Go call; the state is returned as it is.
\<close>

definition withLogger :: "nat \<Rightarrow> (Logger \<Rightarrow> world \<Rightarrow> Logger \<times> world) \<Rightarrow> state \<Rightarrow> state" where
  "withLogger p m s =
     (case heap s p of
        None \<Rightarrow> s
      | Some l \<Rightarrow> (case m l (os s) of (l', w') \<Rightarrow> s\<lparr>os := w', heap := (heap s)(p \<mapsto> l')\<rparr>))"

definition ResetGlobalLogger :: "state \<Rightarrow> state" where
  "ResetGlobalLogger s =
     (case globalLogger s of
        None \<Rightarrow> s
      | Some g \<Rightarrow> (withLogger g Close s)\<lparr>globalLogger := None\<rparr>)"

text \<open>The package-level functions \<^verbatim>\<open>Debug\<close>, \<^verbatim>\<open>Info\<close>, \<^verbatim>\<open>Warn\<close>, \<^verbatim>\<open>Error\<close> and \<^verbatim>\<open>SetLevel\<close>.\<close>

definition globalSeverity ::
  "runtime \<Rightarrow> severityCall \<Rightarrow> string \<Rightarrow> operand list \<Rightarrow> state \<Rightarrow> state" where
  "globalSeverity rt c format v s =
     (case globalLogger s of
        None \<Rightarrow> s
      | Some g \<Rightarrow> withLogger g (\<lambda>l w. (l, invoke rt c format v l w)) s)"

definition globalSetLevel :: "LogLevel \<Rightarrow> state \<Rightarrow> state" where
  "globalSetLevel lv s =
     (case globalLogger s of
        None \<Rightarrow> s
      | Some g \<Rightarrow> withLogger g (\<lambda>l w. (SetLevel lv l, w)) s)"

text \<open>
  The goroutine of \<^verbatim>\<open>scheduleDailyTasks\<close>, one \<^verbatim>\<open>select\<close> at a time: the ticker's case
  runs \<^verbatim>\<open>rotateAndCleanup\<close>; the case of the cancelled context returns.
\<close>

definition taskTick :: "runtime \<Rightarrow> nat \<Rightarrow> state \<Rightarrow> state" where
  "taskTick rt p s = (if p \<in> tasks s then withLogger p (rotateAndCleanup rt) s else s)"

definition taskDone :: "nat \<Rightarrow> state \<Rightarrow> state" where
  "taskDone p s =
     (case heap s p of
        None \<Rightarrow> s
      | Some l \<Rightarrow> if ctxDone l then s\<lparr>tasks := tasks s - {p}\<rparr> else s)"

text \<open>Everything a client, a test or the goroutine can do to the process, as one step function.\<close>

datatype operation =
  OpInit LoggerConfig
| OpGet
| OpReset
| OpClose nat
| OpSetLevel nat LogLevel
| OpSeverity severityCall nat string "operand list"
| OpRotateAndCleanup nat
| OpCleanup nat
| OpGlobalSeverity severityCall string "operand list"
| OpGlobalSetLevel LogLevel
| OpTaskTick nat
| OpTaskDone nat
| OpClock int

fun perform :: "runtime \<Rightarrow> operation \<Rightarrow> state \<Rightarrow> state" where
  "perform rt (OpInit config) s = snd (InitGlobalLogger rt config s)"
| "perform rt OpGet s = s"
| "perform rt OpReset s = ResetGlobalLogger s"
| "perform rt (OpClose p) s = withLogger p Close s"
| "perform rt (OpSetLevel p lv) s = withLogger p (\<lambda>l w. (SetLevel lv l, w)) s"
| "perform rt (OpSeverity c p format v) s =
     withLogger p (\<lambda>l w. (l, invoke rt c format v l w)) s"
| "perform rt (OpRotateAndCleanup p) s = withLogger p (rotateAndCleanup rt) s"
| "perform rt (OpCleanup p) s = withLogger p (\<lambda>l w. (l, snd (cleanupOldLogs rt l w))) s"
| "perform rt (OpGlobalSeverity c format v) s = globalSeverity rt c format v s"
| "perform rt (OpGlobalSetLevel lv) s = globalSetLevel lv s"
| "perform rt (OpTaskTick p) s = taskTick rt p s"
| "perform rt (OpTaskDone p) s = taskDone p s"
| "perform rt (OpClock t) s = s\<lparr>os := (os s)\<lparr>now := t\<rparr>\<rparr>"

section \<open>Observations used by the properties\<close>

text \<open>
  A severity call has emitted its message when the active sink's accumulated output has
  grown by exactly one line: the text \<^verbatim>\<open>fmt.Sprintf\<close> makes of the format, prefixed by
  \<open>[%s]\<close> and a blank, with the tag of the severity as the first operand and the
  caller's operands after it.
\<close>

definition emitted ::
  "runtime \<Rightarrow> severityCall \<Rightarrow> string \<Rightarrow> operand list \<Rightarrow> Logger \<Rightarrow> world \<Rightarrow> bool" where
  "emitted rt c format v l w =
     (activeOutput l (invoke rt c format v l w) =
        activeOutput l w @ [sprintf rt (''[%s] '' @ format) (Str (tagOf c) # v)])"

text \<open>
  The sink kind after the default is applied, and the spec's list of what makes
  construction fail, read against a world: an unknown sink kind; a file sink without
  directory or prefix; or, for a file sink, a refused directory creation, a refused open
  of today's file, or a refused listing of the directory by the first cleanup.
\<close>

definition sinkKind :: "LoggerConfig \<Rightarrow> string" where
  "sinkKind c = (if OutputType c = [] then ''console'' else OutputType c)"

definition constructionFails :: "runtime \<Rightarrow> LoggerConfig \<Rightarrow> world \<Rightarrow> bool" where
  "constructionFails rt c w =
     ((sinkKind c \<noteq> ''console'' \<and> sinkKind c \<noteq> ''file'') \<or>
      (sinkKind c = ''file'' \<and>
         (LogDir c = [] \<or> FilePrefix c = [] \<or>
          (case mkdirAll (LogDir c) w of
             None \<Rightarrow> True
           | Some w0 \<Rightarrow>
               (case openAppend (LogDir c) (FilePrefix c @ ''_'' @ dateStr rt (now w0) @ ''.log'') w0 of
                  None \<Rightarrow> True
                | Some (h, w1) \<Rightarrow> readDir w1 (LogDir c) = None)))))"

text \<open>
  Well-formed process states: nothing is allocated at or beyond \<open>nextAddr\<close>, and the
  global pointer, when set, points to an object.
\<close>

definition wfState :: "state \<Rightarrow> bool" where
  "wfState s =
     ((\<forall>q. nextAddr s \<le> q \<longrightarrow> heap s q = None) \<and>
      (\<forall>g. globalLogger s = Some g \<longrightarrow> heap s g \<noteq> None))"

text \<open>
  A file-backed logger: its sink writes to a file handle, and that handle is the current
  file or has been closed (the state \<^verbatim>\<open>setupFileLogger\<close> leaves, whether its open
  succeeded or not).
\<close>

definition fileBacked :: "Logger \<Rightarrow> world \<Rightarrow> bool" where
  "fileBacked l w =
     (case logger l of
        None \<Rightarrow> False
      | Some Stdout \<Rightarrow> False
      | Some (FileSink h) \<Rightarrow> currentFile l = Some h \<or> fds w h = None)"

text \<open>
  The struct literal of \<^verbatim>\<open>InitGlobalLogger\<close> for a configuration, both defaults applied:
  no sink yet, a fresh context that is not cancelled.
\<close>

definition newLogger :: "LoggerConfig \<Rightarrow> Logger" where
  "newLogger c =
     \<lparr>level = Level c, outputType = sinkKind c, logDir = LogDir c, filePrefix = FilePrefix c,
      retentionDays = (if RetentionDays c \<le> 0 then 7 else RetentionDays c), logger = None,
      currentFile = None, cancelFn = True, ctxDone = False\<rparr>"

section \<open>Observations on a cleanup run\<close>

text \<open>
  A candidate is a listed entry that is not a directory and whose name carries the
  logger's prefix and the suffix \<open>.log\<close>. A candidate is expired when its modification
  time is strictly before the cutoff.
\<close>

definition isCandidate :: "Logger \<Rightarrow> entry \<Rightarrow> bool" where
  "isCandidate l f =
     (\<not> eIsDir f \<and> prefix (filePrefix l @ ''_'') (eName f) \<and> suffix ''.log'' (eName f))"

definition isExpired :: "runtime \<Rightarrow> Logger \<Rightarrow> world \<Rightarrow> entry \<Rightarrow> bool" where
  "isExpired rt l w f = (isCandidate l f \<and> eModTime f < cutoffOf rt l w)"

text \<open>The names of a directory's entries (none for a directory that does not exist).\<close>

definition namesIn :: "world \<Rightarrow> string \<Rightarrow> string set" where
  "namesIn w d = (case dirs w d of None \<Rightarrow> {} | Some es \<Rightarrow> eName ` set es)"

text \<open>The deletion sequence of a run from \<open>w\<close> to \<open>w'\<close>: what the run added to the history.\<close>

definition deletions :: "world \<Rightarrow> world \<Rightarrow> (string \<times> string) list" where
  "deletions w w' = drop (length (unlinked w)) (unlinked w')"

text \<open>
  The file a logger's sink appends to, if any, is a log of its own: it lies in the
  logger's directory under a name with the logger's prefix and the suffix \<open>.log\<close>. That
  is what \<^verbatim>\<open>setupFileLogger\<close> binds.
\<close>

definition sinkIsOwnLog :: "Logger \<Rightarrow> world \<Rightarrow> bool" where
  "sinkIsOwnLog l w =
     (case logger l of
        None \<Rightarrow> True
      | Some Stdout \<Rightarrow> True
      | Some (FileSink h) \<Rightarrow>
          (case fds w h of
             None \<Rightarrow> True
           | Some (d, n) \<Rightarrow>
               d = logDir l \<and> prefix (filePrefix l @ ''_'') n \<and> suffix ''.log'' n))"

text \<open>
  What the first loop of \<open>cleanupOldLogs\<close> collects in \<^verbatim>\<open>oldFiles\<close>: the names of the
  expired candidates whose \<^verbatim>\<open>Info\<close> could be read, in listing order.
\<close>

definition oldNames :: "runtime \<Rightarrow> Logger \<Rightarrow> world \<Rightarrow> entry list \<Rightarrow> string list" where
  "oldNames rt l w files =
     map eName (filter (\<lambda>f. isExpired rt l w f \<and> \<not> failInfo w (logDir l) (eName f)) files)"

text \<open>The entries of a directory, if it exists, have distinct names.\<close>

definition distinctNames :: "world \<Rightarrow> string \<Rightarrow> bool" where
  "distinctNames w d = (case dirs w d of None \<Rightarrow> True | Some es \<Rightarrow> distinct (map eName es))"

text \<open>The entry \<open>e\<close> of directory \<open>d\<close> is the regular file the logger's sink appends to.\<close>

definition sinkTarget :: "Logger \<Rightarrow> world \<Rightarrow> string \<Rightarrow> entry \<Rightarrow> bool" where
  "sinkTarget l w d e =
     (\<not> eIsDir e \<and>
      (case logger l of
         None \<Rightarrow> False
       | Some Stdout \<Rightarrow> False
       | Some (FileSink h) \<Rightarrow> fds w h = Some (d, eName e)))"

section \<open>Observations on a rotation\<close>

text \<open>
  The modification time of the regular file \<open>n\<close> of directory \<open>d\<close>, and the line
  \<open>cleanupOldLogs\<close> writes to the sink for a file it has deleted.
\<close>

definition fileTime :: "world \<Rightarrow> string \<Rightarrow> string \<Rightarrow> int option" where
  "fileTime w d n =
     (case dirs w d of
        None \<Rightarrow> None
      | Some es \<Rightarrow> map_option eModTime (find (\<lambda>e. eName e = n \<and> \<not> eIsDir e) es))"

definition deletionLine :: "runtime \<Rightarrow> string \<times> string \<Rightarrow> string" where
  "deletionLine rt dn =
     sprintf rt ''[%s] Deleted old log file: %s'' [Str ''INFO'', Str (joinPath (fst dn) (snd dn))]"

section \<open>Lock discipline: goroutines sharing one logger\<close>

text \<open>
  Several goroutines call methods of the same \<^verbatim>\<open>*Logger\<close>. A run is an interleaving of
  their steps; a step is one statement of the source that reads or writes the shared
  object, the lock or the file system, taken atomically on the latest values. A
  goroutine runs a severity method, \<^verbatim>\<open>SetLevel\<close>, \<^verbatim>\<open>Close\<close>, or \<^verbatim>\<open>rotateAndCleanup\<close> (what
  the background task does on a tick).
\<close>

datatype goroutine =
  RunSeverity severityCall string "operand list"
| RunSetLevel LogLevel
| RunClose
| RunRotateAndCleanup

text \<open>
  Where a goroutine stands, named by the statement it executes next:
  \<^item> \<open>Check\<close>: the comparison \<^verbatim>\<open>if l.level > XLevel { return }\<close> that opens a severity method;
  \<^item> \<open>Lock\<close>: \<^verbatim>\<open>l.mu.Lock()\<close>, which waits while another goroutine holds the mutex;
  \<^item> \<open>Body\<close>: the statements between \<^verbatim>\<open>Lock\<close> and the deferred \<^verbatim>\<open>Unlock\<close>;
  \<^item> \<open>Unlock e\<close>: the deferred \<^verbatim>\<open>l.mu.Unlock()\<close>; \<open>e\<close> is the error \<^verbatim>\<open>setupFileLogger\<close> returns;
  \<^item> \<open>Scan\<close>: \<^verbatim>\<open>cleanupOldLogs\<close> from \<^verbatim>\<open>os.ReadDir\<close> to the end of \<^verbatim>\<open>sort.Slice\<close>;
  \<^item> \<open>Remove fs\<close>: the head of the last loop, \<open>fs\<close> being the files still to delete;
  \<^item> \<open>Report f fs\<close>: \<^verbatim>\<open>l.log("INFO", "Deleted old log file: %s", filePath)\<close> for the file \<open>f\<close>
    that \<^verbatim>\<open>os.Remove\<close> has just deleted;
  \<^item> \<open>Done\<close>: the method has returned.
\<close>

datatype pc =
  Check
| Lock
| Body
| Unlock "error option"
| Scan
| Remove "string list"
| Report string "string list"
| Done

text \<open>
  The severity methods start with the comparison, before the lock is taken; the other
  three start by taking the lock (\<^verbatim>\<open>rotateAndCleanup\<close> in \<^verbatim>\<open>setupFileLogger\<close>).
\<close>

fun first :: "goroutine \<Rightarrow> pc" where
  "first (RunSeverity s format v) = Check"
| "first (RunSetLevel lv) = Lock"
| "first RunClose = Lock"
| "first RunRotateAndCleanup = Lock"

text \<open>
  A configuration: the shared logger object, the operating system, the holder of
  \<^verbatim>\<open>l.mu\<close> (\<open>None\<close> when it is free) and the goroutines, each with its position.
\<close>

record conf =
  self :: Logger
  sys :: world
  mu :: "nat option"
  procs :: "(goroutine \<times> pc) list"

text \<open>What a step does to the shared state.\<close>

datatype action =
  ReadLevel
| Acquire
| Release
| SinkWrite
| WriteLevel
| CloseFile
| Rotate
| ListDir
| Unlink
| Return

definition moveTo :: "nat \<Rightarrow> pc \<Rightarrow> conf \<Rightarrow> conf" where
  "moveTo i p c = c\<lparr>procs := (procs c)[i := (fst (procs c ! i), p)]\<rparr>"

text \<open>
  The statements under the lock. \<^verbatim>\<open>(*Logger).log\<close> is called by the severity methods
  with the lock held; \<^verbatim>\<open>SetLevel\<close> assigns the threshold; \<^verbatim>\<open>Close\<close> and
  \<^verbatim>\<open>setupFileLogger\<close> are the bodies defined above.
\<close>

fun body :: "runtime \<Rightarrow> nat \<Rightarrow> goroutine \<Rightarrow> conf \<Rightarrow> action \<times> conf" where
  "body rt i (RunSeverity s format v) c =
     (SinkWrite, moveTo i (Unlock None) (c\<lparr>sys := log rt (tagOf s) format v (self c) (sys c)\<rparr>))"
| "body rt i (RunSetLevel lv) c =
     (WriteLevel, moveTo i (Unlock None) (c\<lparr>self := SetLevel lv (self c)\<rparr>))"
| "body rt i RunClose c =
     (case Close (self c) (sys c) of
        (l', w') \<Rightarrow> (CloseFile, moveTo i (Unlock None) (c\<lparr>self := l', sys := w'\<rparr>)))"
| "body rt i RunRotateAndCleanup c =
     (case setupFileLogger rt (self c) (sys c) of
        (e, l', w') \<Rightarrow> (Rotate, moveTo i (Unlock e) (c\<lparr>self := l', sys := w'\<rparr>)))"

text \<open>
  One step of goroutine \<open>i\<close>; \<open>None\<close> when it cannot move (it has returned, or it waits for
  the lock). After the unlock \<^verbatim>\<open>rotateAndCleanup\<close> prints the error of the rotation, if
  any, and goes on to \<^verbatim>\<open>cleanupOldLogs\<close>, which takes no lock: it lists and sorts, then
  removes file after file and reports each removal through \<^verbatim>\<open>l.log\<close>.
\<close>

definition step :: "runtime \<Rightarrow> nat \<Rightarrow> conf \<Rightarrow> (action \<times> conf) option" where
  "step rt i c =
     (if length (procs c) \<le> i then None
      else
        (case procs c ! i of
           (g, p) \<Rightarrow>
             (case p of
                Check \<Rightarrow>
                  (case g of
                     RunSeverity s format v \<Rightarrow>
                       Some (ReadLevel,
                             moveTo i (if level (self c) > severity s then Done else Lock) c)
                   | RunSetLevel lv \<Rightarrow> None
                   | RunClose \<Rightarrow> None
                   | RunRotateAndCleanup \<Rightarrow> None)
              | Lock \<Rightarrow>
                  (if mu c = None then Some (Acquire, moveTo i Body (c\<lparr>mu := Some i\<rparr>))
                   else None)
              | Body \<Rightarrow> Some (body rt i g c)
              | Unlock e \<Rightarrow>
                  Some (Release,
                        moveTo i (case g of RunRotateAndCleanup \<Rightarrow> Scan
                                  | RunSeverity s format v \<Rightarrow> Done
                                  | RunSetLevel lv \<Rightarrow> Done
                                  | RunClose \<Rightarrow> Done)
                          (c\<lparr>mu := None,
                             sys := (case e of None \<Rightarrow> sys c
                                     | Some x \<Rightarrow> warn ''Error rotating log file'' (sys c))\<rparr>))
              | Scan \<Rightarrow>
                  (case readDir (sys c) (logDir (self c)) of
                     None \<Rightarrow>
                       Some (ListDir,
                             moveTo i Done (c\<lparr>sys := warn ''Error cleaning up old logs'' (sys c)\<rparr>))
                   | Some files \<Rightarrow>
                       (case scanOld (sys c) (logDir (self c)) (filePrefix (self c) @ ''_'')
                               (cutoffOf rt (self c) (sys c)) files [] [] of
                          (oldFiles, warns) \<Rightarrow>
                            (let w1 = (sys c)\<lparr>stderr := stderr (sys c) @ warns\<rparr>
                             in Some (ListDir,
                                      moveTo i
                                        (Remove (sortSlice rt (statModTime w1 (logDir (self c)))
                                                   oldFiles))
                                        (c\<lparr>sys := w1\<rparr>)))))
              | Remove fs \<Rightarrow>
                  (case fs of
                     [] \<Rightarrow> Some (Return, moveTo i Done c)
                   | f # rest \<Rightarrow>
                       (case removeFile (logDir (self c)) f (sys c) of
                          None \<Rightarrow>
                            Some (Unlink,
                                  moveTo i (Remove rest)
                                    (c\<lparr>sys := warn (''Warning: failed to delete old log file '' @
                                                      joinPath (logDir (self c)) f) (sys c)\<rparr>))
                        | Some w' \<Rightarrow> Some (Unlink, moveTo i (Report f rest) (c\<lparr>sys := w'\<rparr>))))
              | Report f rest \<Rightarrow>
                  Some (SinkWrite,
                        moveTo i (Remove rest)
                          (c\<lparr>sys := log rt ''INFO'' ''Deleted old log file: %s''
                                       [Str (joinPath (logDir (self c)) f)] (self c) (sys c)\<rparr>))
              | Done \<Rightarrow> None)))"

text \<open>
  A run under a schedule, the list of the goroutines' turns: a goroutine that cannot move
  loses its turn. The result is the sequence of the steps taken, each with the
  configuration it started from and the one it produced, and the last configuration.
\<close>

record event =
  evWho :: nat
  evWhat :: action
  evPre :: conf
  evPost :: conf

fun exec :: "runtime \<Rightarrow> nat list \<Rightarrow> conf \<Rightarrow> event list \<times> conf" where
  "exec rt [] c = ([], c)"
| "exec rt (i # sched) c =
     (case step rt i c of
        None \<Rightarrow> exec rt sched c
      | Some (a, c') \<Rightarrow>
          (case exec rt sched c' of
             (es, c'') \<Rightarrow> (\<lparr>evWho = i, evWhat = a, evPre = c, evPost = c'\<rparr> # es, c'')))"

text \<open>At the start the lock is free and every goroutine is at its first statement.\<close>

definition initial :: "conf \<Rightarrow> bool" where
  "initial c = (mu c = None \<and> list_all (\<lambda>gp. snd gp = first (fst gp)) (procs c))"

text \<open>The goroutine that takes the step of an event, and whether it runs a severity method.\<close>

definition actor :: "event \<Rightarrow> goroutine" where
  "actor e = fst (procs (evPre e) ! evWho e)"

fun isSeverity :: "goroutine \<Rightarrow> bool" where
  "isSeverity (RunSeverity s format v) = True"
| "isSeverity (RunSetLevel lv) = False"
| "isSeverity RunClose = False"
| "isSeverity RunRotateAndCleanup = False"

text \<open>
  A goroutine holds the lock from the return of \<^verbatim>\<open>Lock\<close> to the deferred \<^verbatim>\<open>Unlock\<close>; the
  positions inside \<^verbatim>\<open>cleanupOldLogs\<close> are reached by \<^verbatim>\<open>rotateAndCleanup\<close> only.
\<close>

fun holds :: "pc \<Rightarrow> bool" where
  "holds Body = True"
| "holds (Unlock e) = True"
| "holds Check = False"
| "holds Lock = False"
| "holds Scan = False"
| "holds (Remove fs) = False"
| "holds (Report f fs) = False"
| "holds Done = False"

fun cleaning :: "pc \<Rightarrow> bool" where
  "cleaning Scan = True"
| "cleaning (Remove fs) = True"
| "cleaning (Report f fs) = True"
| "cleaning Check = False"
| "cleaning Lock = False"
| "cleaning Body = False"
| "cleaning (Unlock e) = False"
| "cleaning Done = False"

text \<open>
  The invariant of every run: the goroutine recorded as the holder of the mutex is the one
  between \<^verbatim>\<open>Lock\<close> and \<^verbatim>\<open>Unlock\<close>, and only \<^verbatim>\<open>rotateAndCleanup\<close> is inside the cleanup.
\<close>

definition disciplined :: "conf \<Rightarrow> bool" where
  "disciplined c =
     (\<forall>i < length (procs c).
        (holds (snd (procs c ! i)) \<longleftrightarrow> mu c = Some i) \<and>
        (cleaning (snd (procs c ! i)) \<longrightarrow> fst (procs c ! i) = RunRotateAndCleanup))"

section \<open>Concrete runs\<close>

text \<open>
  A runtime for the concrete runs: the clock counts seconds in UTC, the date is written
  with the proleptic Gregorian calendar, the sort is an insertion sort, and the
  formatter is \<open>goSprintf\<close> below.
\<close>

definition twoDigits :: "int \<Rightarrow> string" where
  "twoDigits n = [''0123456789'' ! nat (n div 10 mod 10), ''0123456789'' ! nat (n mod 10)]"

definition utcDateStr :: "int \<Rightarrow> string" where
  "utcDateStr t =
     (let z = t div 86400 + 719468;
          era = z div 146097;
          doe = z - era * 146097;
          yoe = (doe - doe div 1460 + doe div 36524 - doe div 146096) div 365;
          doy = doe - (365 * yoe + yoe div 4 - yoe div 100);
          mp = (5 * doy + 2) div 153;
          dd = doy - (153 * mp + 2) div 5 + 1;
          mm = (if mp < 10 then mp + 3 else mp - 9);
          yy = yoe + era * 400 + (if mm \<le> 2 then 1 else 0)
      in twoDigits (yy div 100) @ twoDigits yy @ ''-'' @ twoDigits mm @ ''-'' @ twoDigits dd)"

text \<open>
  A rendition of \<^verbatim>\<open>fmt.Sprintf\<close> for the concrete runs, after \<^verbatim>\<open>doPrintf\<close> of the
  standard library. It interprets the verbs \<open>s\<close>, \<open>v\<close> and \<open>d\<close> without flags, width or
  precision, the escape \<open>%%\<close>, and explicit operand indexes \<open>%[n]\<close>; it reports a missing
  operand, a bad index, a verb it does not know for the operand, a format that ends in a
  percent sign, and, unless an explicit index was used, the operands left over, in the
  way the library does. Formats beyond that are not used by the concrete runs.
\<close>

function showNat :: "nat \<Rightarrow> string" where
  "showNat n =
     (if n < 10 then [''0123456789'' ! n] else showNat (n div 10) @ [''0123456789'' ! (n mod 10)])"
  by pat_completeness auto
termination
  by (relation "measure id") auto

definition showInt :: "int \<Rightarrow> string" where
  "showInt i = (if i < 0 then ''-'' @ showNat (nat (- i)) else showNat (nat i))"

definition isDigit :: "char \<Rightarrow> bool" where
  "isDigit c = (c \<in> set ''0123456789'')"

definition digitValue :: "char \<Rightarrow> nat" where
  "digitValue c = length (takeWhile (\<lambda>d. d \<noteq> c) ''0123456789'')"

definition readNat :: "string \<Rightarrow> nat" where
  "readNat ds = foldl (\<lambda>n c. 10 * n + digitValue c) 0 ds"

definition typeName :: "operand \<Rightarrow> string" where
  "typeName x = (case x of Str t \<Rightarrow> ''string'' | Num n \<Rightarrow> ''int'')"

definition plainText :: "operand \<Rightarrow> string" where
  "plainText x = (case x of Str t \<Rightarrow> t | Num n \<Rightarrow> showInt n)"

definition badVerb :: "char \<Rightarrow> operand \<Rightarrow> string" where
  "badVerb verb x = ''%!'' @ [verb] @ ''('' @ typeName x @ ''='' @ plainText x @ '')''"

definition printArg :: "char \<Rightarrow> operand \<Rightarrow> string" where
  "printArg verb x =
     (if verb = CHR ''v'' then plainText x
      else if verb = CHR ''s'' then (case x of Str t \<Rightarrow> t | Num n \<Rightarrow> badVerb verb x)
      else if verb = CHR ''d'' then (case x of Num n \<Rightarrow> showInt n | Str t \<Rightarrow> badVerb verb x)
      else badVerb verb x)"

fun commaSep :: "string list \<Rightarrow> string" where
  "commaSep [] = []"
| "commaSep [x] = x"
| "commaSep (x # y # ys) = x @ '', '' @ commaSep (y # ys)"

definition extraArgs :: "operand list \<Rightarrow> string" where
  "extraArgs xs = ''%!(EXTRA '' @ commaSep (map (\<lambda>x. typeName x @ ''='' @ plainText x) xs) @ '')''"

text \<open>
  One verb: the output, the rest of the format, the next operand number and whether an
  explicit index has been seen. \<open>good\<close> is the library's \<^verbatim>\<open>goodArgNum\<close>.
\<close>

definition plainVerb ::
  "char \<Rightarrow> string \<Rightarrow> operand list \<Rightarrow> nat \<Rightarrow> bool \<Rightarrow> bool \<Rightarrow> string \<times> string \<times> nat \<times> bool" where
  "plainVerb verb rest a argNum good reordered =
     (if verb = CHR ''%'' then (''%'', rest, argNum, reordered)
      else if \<not> good then (''%!'' @ [verb] @ ''(BADINDEX)'', rest, argNum, reordered)
      else if length a \<le> argNum then (''%!'' @ [verb] @ ''(MISSING)'', rest, argNum, reordered)
      else (printArg verb (a ! argNum), rest, Suc argNum, reordered))"

definition verbAfter ::
  "string \<Rightarrow> operand list \<Rightarrow> nat \<Rightarrow> bool \<Rightarrow> bool \<Rightarrow> string \<times> string \<times> nat \<times> bool" where
  "verbAfter cs a argNum good reordered =
     (case cs of
        [] \<Rightarrow> (''%!(NOVERB)'', [], argNum, reordered)
      | verb # rest \<Rightarrow> plainVerb verb rest a argNum good reordered)"

definition verbStep ::
  "string \<Rightarrow> operand list \<Rightarrow> nat \<Rightarrow> bool \<Rightarrow> string \<times> string \<times> nat \<times> bool" where
  "verbStep cs a argNum reordered =
     (case cs of
        [] \<Rightarrow> (''%!(NOVERB)'', [], argNum, reordered)
      | c # rest \<Rightarrow>
          if c = CHR ''['' then
            (let inside = takeWhile (\<lambda>x. x \<noteq> CHR '']'') rest;
                 after = dropWhile (\<lambda>x. x \<noteq> CHR '']'') rest
             in if after = [] then verbAfter rest a argNum False True
                else if inside \<noteq> [] \<and> list_all isDigit inside \<and>
                        1 \<le> readNat inside \<and> readNat inside \<le> length a
                then verbAfter (tl after) a (readNat inside - 1) True True
                else verbAfter (tl after) a argNum False True)
          else plainVerb c rest a argNum True reordered)"

lemma verbAfter_length:
  "verbAfter cs a n g r = (out, rest, n', r') \<Longrightarrow> length rest \<le> length cs"
  by (auto simp: verbAfter_def plainVerb_def split: list.splits if_splits)

lemma verbStep_length:
  assumes "verbStep cs a n r = (out, rest, n', r')"
  shows "length rest \<le> length cs"
proof (cases cs)
  case Nil
  with assms show ?thesis by (simp add: verbStep_def)
next
  case (Cons c cs')
  have d: "length (tl (dropWhile P cs')) \<le> length cs'" for P
  proof -
    have "length (tl (dropWhile P cs')) \<le> length (dropWhile P cs')" by simp
    also have "\<dots> \<le> length cs'" by (rule length_dropWhile_le)
    finally show ?thesis .
  qed
  show ?thesis
  proof (cases "c = CHR ''[''")
    case False
    with assms Cons show ?thesis by (auto simp: verbStep_def plainVerb_def split: if_splits)
  next
    case True
    with assms Cons
    consider "verbAfter cs' a n False True = (out, rest, n', r')"
      | m g where "verbAfter (tl (dropWhile (\<lambda>x. x \<noteq> CHR '']'') cs')) a m g True = (out, rest, n', r')"
      by (auto simp: verbStep_def Let_def split: if_splits)
    then show ?thesis
    proof cases
      case 1
      from verbAfter_length [OF 1] Cons show ?thesis by simp
    next
      case 2
      from verbAfter_length [OF 2] d [of "\<lambda>x. x \<noteq> CHR '']''"] Cons show ?thesis by simp
    qed
  qed
qed

function goFormat :: "string \<Rightarrow> operand list \<Rightarrow> nat \<Rightarrow> bool \<Rightarrow> string" where
  "goFormat [] a argNum reordered =
     (if \<not> reordered \<and> argNum < length a then extraArgs (drop argNum a) else [])"
| "goFormat (c # cs) a argNum reordered =
     (if c = CHR ''%'' then
        (case verbStep cs a argNum reordered of
           (out, rest, argNum', reordered') \<Rightarrow> out @ goFormat rest a argNum' reordered')
      else c # goFormat cs a argNum reordered)"
  by pat_completeness auto
termination
  by (relation "measure (\<lambda>(f, a, n, r). length f)")
    (auto dest: verbStep_length verbStep_length [OF sym] simp: less_Suc_eq_le)

definition goSprintf :: "string \<Rightarrow> operand list \<Rightarrow> string" where
  "goSprintf format a = goFormat format a 0 False"

definition utcRuntime :: runtime where
  "utcRuntime =
     \<lparr>midnightOf = (\<lambda>t. t - t mod 86400),
      addDays = (\<lambda>t n. t + n * 86400),
      dateStr = utcDateStr,
      sortSlice = (\<lambda>key xs. sort_key key xs),
      sprintf = goSprintf\<rparr>"

text \<open>
  A world on 4 July 2023, 12:00:00 UTC, where no system call is refused. The directory
  \<open>logs\<close> holds today's log of the prefix \<open>app\<close>, open on handle 0.
\<close>

definition noon :: int where "noon = 1688472000"

definition exWorld :: world where
  "exWorld =
     \<lparr>dirs = (\<lambda>d. if d = ''logs''
                    then Some [\<lparr>eName = ''app_2023-07-04.log'', eIsDir = False,
                                eModTime = noon - 60, eData = [''[INFO] started'']\<rparr>]
                    else None),
      fds = (\<lambda>h. if h = 0 then Some (''logs'', ''app_2023-07-04.log'') else None),
      nextFd = 1, stdout = [], stderr = [], unlinked = [], now = noon,
      failMkdir = (\<lambda>d. False), failOpen = (\<lambda>d n. False), failReadDir = (\<lambda>d. False),
      failInfo = (\<lambda>d n. False), failRemove = (\<lambda>d n. False), failClose = (\<lambda>h. False)\<rparr>"

definition exLogger :: Logger where
  "exLogger =
     \<lparr>level = InfoLevel, outputType = ''file'', logDir = ''logs'', filePrefix = ''app'',
      retentionDays = 1, logger = Some (FileSink 0), currentFile = Some 0,
      cancelFn = True, ctxDone = False\<rparr>"

text \<open>The process before any initialisation, in a world where \<open>logs\<close> does not exist yet.\<close>

definition bareWorld :: world where
  "bareWorld =
     \<lparr>dirs = (\<lambda>d. None), fds = (\<lambda>h. None),
      nextFd = 0, stdout = [], stderr = [], unlinked = [], now = noon,
      failMkdir = (\<lambda>d. False), failOpen = (\<lambda>d n. False), failReadDir = (\<lambda>d. False),
      failInfo = (\<lambda>d n. False), failRemove = (\<lambda>d n. False), failClose = (\<lambda>h. False)\<rparr>"

definition initState :: state where
  "initState = \<lparr>os = bareWorld, heap = (\<lambda>p. None), nextAddr = 0, globalLogger = None, tasks = {}\<rparr>"

definition fileConfig :: LoggerConfig where
  "fileConfig =
     \<lparr>Level = InfoLevel, OutputType = ''file'', LogDir = ''logs'', FilePrefix = ''app'',
      RetentionDays = 0\<rparr>"

definition consoleConfig :: LoggerConfig where
  "consoleConfig =
     \<lparr>Level = WarnLevel, OutputType = [], LogDir = [], FilePrefix = [], RetentionDays = 3\<rparr>"

definition exConsole :: Logger where
  "exConsole =
     \<lparr>level = InfoLevel, outputType = ''console'', logDir = [], filePrefix = [],
      retentionDays = 7, logger = Some Stdout, currentFile = None,
      cancelFn = True, ctxDone = False\<rparr>"

text \<open>The process after a first, successful initialisation with the file configuration.\<close>

definition fileState :: state where
  "fileState = snd (InitGlobalLogger utcRuntime fileConfig initState)"


text \<open>
  A log directory as the test of the cleanup sets it up, seen at noon of 4 July 2023 by
  a logger with one day of retention: the cutoff is 3 July, 00:00. Besides today's log
  there are logs last modified three days, two days and one day ago, one modified at the
  cutoff instant, a file of another name and a directory whose name fits the pattern,
  both three days old.
\<close>

definition cutoffInstant :: int where "cutoffInstant = 1688342400"

definition cleanFiles :: "entry list" where
  "cleanFiles =
     [\<lparr>eName = ''app_2023-07-01.log'', eIsDir = False, eModTime = noon - 259200, eData = []\<rparr>,
      \<lparr>eName = ''app_2023-07-02.log'', eIsDir = False, eModTime = noon - 172800, eData = []\<rparr>,
      \<lparr>eName = ''app_2023-07-03.log'', eIsDir = False, eModTime = noon - 86400, eData = []\<rparr>,
      \<lparr>eName = ''app_2023-07-04.log'', eIsDir = False, eModTime = noon - 60,
         eData = [''[INFO] started'']\<rparr>,
      \<lparr>eName = ''app_archive.log'', eIsDir = True, eModTime = noon - 259200, eData = []\<rparr>,
      \<lparr>eName = ''app_boundary.log'', eIsDir = False, eModTime = cutoffInstant, eData = []\<rparr>,
      \<lparr>eName = ''otherfile.log'', eIsDir = False, eModTime = noon - 259200, eData = []\<rparr>]"

definition cleanWorld :: world where
  "cleanWorld = exWorld\<lparr>dirs := (\<lambda>d. if d = ''logs'' then Some cleanFiles else None)\<rparr>"






text \<open>
  Three goroutines on the logger of the cleanup world: a call of \<^verbatim>\<open>Info\<close>, a call of
  \<^verbatim>\<open>SetLevel(ErrorLevel)\<close> and the background task on a tick. In the first run the call of
  \<^verbatim>\<open>Info\<close> passes its comparison, \<^verbatim>\<open>SetLevel\<close> runs from lock to unlock, and the call of
  \<^verbatim>\<open>Info\<close> goes on. In the second the background task rotates, lists the directory and
  removes the oldest file, the call of \<^verbatim>\<open>Info\<close> passes its comparison and takes the lock,
  and the background task reports the removal.
\<close>

definition raceConf :: conf where
  "raceConf =
     \<lparr>self = exLogger, sys = cleanWorld, mu = None,
      procs = [(RunSeverity CallInfo ''request served'' [], Check),
               (RunSetLevel ErrorLevel, Lock),
               (RunRotateAndCleanup, Lock)]\<rparr>"

definition staleRun :: "event list" where
  "staleRun = fst (exec utcRuntime [0, 1, 1, 1, 0, 0, 0] raceConf)"

definition cleanupRun :: "event list" where
  "cleanupRun = fst (exec utcRuntime [2, 2, 2, 2, 2, 0, 0, 2] raceConf)"

section \<open>The level filter\<close>

lemma find_satisfies: "find P xs = Some x \<Longrightarrow> P x"
  by (induction xs) (auto split: if_splits)

lemma find_map_appendLine:
  "find (\<lambda>e. eName e = n \<and> \<not> eIsDir e) (map (appendLine n ln t) es) =
   map_option (appendLine n ln t) (find (\<lambda>e. eName e = n \<and> \<not> eIsDir e) es)"
  by (induction es) (auto simp: appendLine_def)

lemma fileData_fileWrite:
  assumes "fds w h = Some (d, n)" and "fileData w d n = Some ls"
  shows "fileData (fileWrite h ln w) d n = Some (ls @ [ln])"
proof -
  from assms(2) obtain es e where es: "dirs w d = Some es"
    and e: "find (\<lambda>e. eName e = n \<and> \<not> eIsDir e) es = Some e" and ls: "ls = eData e"
    by (auto simp: fileData_def split: option.splits)
  from find_satisfies [OF e] have "eData (appendLine n ln (now w) e) = eData e @ [ln]"
    by (simp add: appendLine_def)
  with assms(1) es e ls show ?thesis
    by (simp add: fileData_def fileWrite_def find_map_appendLine)
qed

lemma fds_fileWrite [simp]: "fds (fileWrite h ln w) = fds w"
  by (simp add: fileWrite_def split: option.splits prod.splits)

lemma fds_sinkWrite [simp]: "fds (sinkWrite out ln w) = fds w"
  by (cases out) simp_all

lemma activeOutput_sinkWrite:
  assumes "sinkOutput w out = Some ls"
  shows "sinkOutput (sinkWrite out ln w) out = Some (ls @ [ln])"
proof (cases out)
  case Stdout
  with assms show ?thesis by simp
next
  case (FileSink h)
  with assms obtain d n where b: "fds w h = Some (d, n)" and f: "fileData w d n = Some ls"
    by (auto split: option.splits)
  from fileData_fileWrite [OF b f] FileSink b show ?thesis by simp
qed

lemma activeOutput_log:
  assumes "isOpen l w"
  shows "activeOutput l (log rt tag format v l w) =
         activeOutput l w @ [sprintf rt (''[%s] '' @ format) (Str tag # v)]"
proof -
  from assms obtain out ls where o: "logger l = Some out" and ls: "sinkOutput w out = Some ls"
    by (auto simp: isOpen_def split: option.splits)
  from activeOutput_sinkWrite [OF ls] o ls show ?thesis
    by (simp add: activeOutput_def log_def)
qed

lemma invoke_eq:
  "invoke rt c format v l w =
     (if level l > severity c then w else log rt (tagOf c) format v l w)"
  by (cases c) (simp_all add: Debug_def Info_def Warn_def Error_def)

lemma isOpen_SetLevel [simp]: "isOpen (SetLevel T l) w = isOpen l w"
  by (simp add: isOpen_def SetLevel_def)

lemma emitted_iff:
  assumes "isOpen l w"
  shows "emitted rt c format v l w \<longleftrightarrow> level l \<le> severity c"
  using activeOutput_log [OF assms, of rt "tagOf c" format v]
  by (auto simp: emitted_def invoke_eq)

lemmas levelDefs = DebugLevel_def InfoLevel_def WarnLevel_def ErrorLevel_def

lemma exLogger_open: "isOpen exLogger exWorld"
  by (simp add: isOpen_def exLogger_def exWorld_def fileData_def)

lemma goSprintf_plain:
  "goSprintf ''[%s] disk low'' [Str ''WARN''] = ''[WARN] disk low''"
  "goSprintf ''[%s] links %s'' [Str ''ERROR'', Str ''down''] = ''[ERROR] links down''"
  "goSprintf ''[%s] %[1]s'' [Str ''INFO'', Str ''x''] = ''[INFO] INFO''"
  "goSprintf ''[%s] late'' [Str ''ERROR''] = ''[ERROR] late''"
  by (simp_all add: goSprintf_def verbStep_def verbAfter_def plainVerb_def printArg_def
      plainText_def isDigit_def readNat_def digitValue_def Let_def)

text \<open>
  Claim C1. On an open logger, a call of severity \<open>S\<close> (Debug 0, Info 1, Warn 2, Error 3)
  appends its line to the active sink if and only if \<open>S\<close> is at least the threshold the
  logger holds at the call, and the line is what \<^verbatim>\<open>fmt.Sprintf\<close> makes of \<open>[%s]\<close>, a blank
  and the caller's format, with the severity's tag as first operand and the caller's
  operands after it; a call below the threshold changes nothing at all. The threshold is
  the field as construction left it or, after \<open>SetLevel T\<close>, the value \<open>T\<close>. This holds
  for every integer threshold, also outside 0..3.
\<close>

theorem level_filter:
  assumes "isOpen l w"
  shows "(activeOutput l (invoke rt c format v l w) =
            activeOutput l w @ [sprintf rt (''[%s] '' @ format) (Str (tagOf c) # v)]
          \<longleftrightarrow> level l \<le> severity c) \<and>
         (\<not> level l \<le> severity c \<longrightarrow> invoke rt c format v l w = w) \<and>
         (activeOutput (SetLevel T l) (invoke rt c format v (SetLevel T l) w) =
            activeOutput (SetLevel T l) w @ [sprintf rt (''[%s] '' @ format) (Str (tagOf c) # v)]
          \<longleftrightarrow> T \<le> severity c) \<and>
         tagOf CallDebug = ''DEBUG'' \<and> tagOf CallInfo = ''INFO'' \<and>
         tagOf CallWarn = ''WARN'' \<and> tagOf CallError = ''ERROR'' \<and>
         severity CallDebug = 0 \<and> severity CallInfo = 1 \<and>
         severity CallWarn = 2 \<and> severity CallError = 3"
proof -
  have "isOpen (SetLevel T l) w" using assms by simp
  from emitted_iff [OF this, of rt c format v]
  have "emitted rt c format v (SetLevel T l) w \<longleftrightarrow> T \<le> severity c"
    by (simp add: SetLevel_def)
  with emitted_iff [OF assms, of rt c format v] show ?thesis
    by (simp add: invoke_eq emitted_def DebugLevel_def InfoLevel_def WarnLevel_def
        ErrorLevel_def)
qed

theorem level_filter_witness:
  "isOpen exLogger exWorld \<and> level exLogger = 1 \<and>
   activeOutput exLogger exWorld = [''[INFO] started''] \<and>
   activeOutput exLogger (invoke utcRuntime CallWarn ''disk low'' [] exLogger exWorld) =
     [''[INFO] started'', ''[WARN] disk low''] \<and>
   invoke utcRuntime CallDebug ''tick %d'' [Num 3] exLogger exWorld = exWorld \<and>
   invoke utcRuntime CallWarn ''disk low'' [] (SetLevel 3 exLogger) exWorld = exWorld \<and>
   activeOutput exLogger
     (invoke utcRuntime CallError ''links %s'' [Str ''down''] (SetLevel 3 exLogger) exWorld) =
     [''[INFO] started'', ''[ERROR] links down''] \<and>
   activeOutput exLogger (invoke utcRuntime CallInfo ''%[1]s'' [Str ''x''] exLogger exWorld) =
     [''[INFO] started'', ''[INFO] INFO'']"
proof -
  have out: "activeOutput exLogger exWorld = [''[INFO] started'']"
    "activeOutput (SetLevel 3 exLogger) = activeOutput exLogger"
    by (simp_all add: activeOutput_def exLogger_def exWorld_def fileData_def SetLevel_def
        fun_eq_iff)
  have sp: "sprintf utcRuntime = goSprintf" by (simp add: utcRuntime_def)
  have lv: "level exLogger = 1" by (simp add: exLogger_def InfoLevel_def)
  from level_filter [OF exLogger_open, of utcRuntime CallWarn "''disk low''" "[]" 3]
  have 1: "activeOutput exLogger (invoke utcRuntime CallWarn ''disk low'' [] exLogger exWorld) =
      [''[INFO] started'', ''[WARN] disk low'']"
    by (simp add: out sp lv goSprintf_plain levelDefs)
  have o3: "isOpen (SetLevel 3 exLogger) exWorld" using exLogger_open by simp
  from level_filter [OF o3, of utcRuntime CallWarn "''disk low''" "[]" 3]
  have 2: "invoke utcRuntime CallWarn ''disk low'' [] (SetLevel 3 exLogger) exWorld = exWorld"
    by (simp add: levelDefs SetLevel_def)
  from level_filter [OF exLogger_open, of utcRuntime CallDebug "''tick %d''" "[Num 3]" 3]
  have 3: "invoke utcRuntime CallDebug ''tick %d'' [Num 3] exLogger exWorld = exWorld"
    by (simp add: lv levelDefs)
  from level_filter [OF exLogger_open, of utcRuntime CallError "''links %s''" "[Str ''down'']" 3]
  have 4: "activeOutput exLogger
     (invoke utcRuntime CallError ''links %s'' [Str ''down''] (SetLevel 3 exLogger) exWorld) =
     [''[INFO] started'', ''[ERROR] links down'']"
    by (simp add: out sp goSprintf_plain levelDefs)
  from level_filter [OF exLogger_open, of utcRuntime CallInfo "''%[1]s''" "[Str ''x'']" 3]
  have 5: "activeOutput exLogger (invoke utcRuntime CallInfo ''%[1]s'' [Str ''x''] exLogger exWorld) =
     [''[INFO] started'', ''[INFO] INFO'']"
    by (simp add: out sp lv goSprintf_plain levelDefs)
  from 1 2 3 4 5 out lv exLogger_open show ?thesis by simp
qed

section \<open>Construction and the singleton\<close>

lemma cleanup_fails_iff:
  "fst (cleanupOldLogs rt l w) \<noteq> None \<longleftrightarrow> readDir w (logDir l) = None"
  by (simp add: cleanupOldLogs_def Let_def split: option.splits prod.splits)

lemma setup_fresh:
  "currentFile l = None \<Longrightarrow> setupFileLogger rt l w =
     (case openAppend (logDir l) (logFileName rt l w) w of
         None \<Rightarrow> (Some OpenLogFileFailed, l, w)
       | Some (h, w2) \<Rightarrow> (None, l\<lparr>currentFile := Some h, logger := Some (FileSink h)\<rparr>, w2))"
  by (simp add: setupFileLogger_def closeCurrentFile_def)

lemma init_existing: "globalLogger s = Some g \<Longrightarrow> InitGlobalLogger rt c s = (Inr g, s)"
  by (simp add: InitGlobalLogger_def)

lemma init_invalid:
  assumes "globalLogger s = None" "sinkKind c \<noteq> ''console''" "sinkKind c \<noteq> ''file''"
  shows "InitGlobalLogger rt c s = (Inl (InvalidOutputType (sinkKind c)), s)"
  using assms by (simp add: InitGlobalLogger_def sinkKind_def Let_def split: if_splits)

lemma init_console:
  assumes "globalLogger s = None" "sinkKind c = ''console''"
  shows "InitGlobalLogger rt c s =
     (Inr (nextAddr s),
      s\<lparr>heap := (heap s)(nextAddr s \<mapsto> (newLogger c)\<lparr>logger := Some Stdout\<rparr>),
        nextAddr := Suc (nextAddr s), globalLogger := Some (nextAddr s)\<rparr>)"
  using assms by (simp add: InitGlobalLogger_def sinkKind_def Let_def newLogger_def split: if_splits)

lemma init_file:
  assumes "globalLogger s = None" "sinkKind c = ''file''"
  shows "InitGlobalLogger rt c s =
     (if LogDir c = [] then (Inl LogDirRequired, s)
      else if FilePrefix c = [] then (Inl FilePrefixRequired, s)
      else (case mkdirAll (LogDir c) (os s) of
              None \<Rightarrow> (Inl CreateLogDirFailed, s)
            | Some w0 \<Rightarrow>
               (case openAppend (LogDir c) (FilePrefix c @ ''_'' @ dateStr rt (now w0) @ ''.log'') w0 of
                  None \<Rightarrow> (Inl OpenLogFileFailed,
                            s\<lparr>os := w0, heap := (heap s)(nextAddr s \<mapsto> (newLogger c)\<lparr>ctxDone := True\<rparr>),
                              nextAddr := Suc (nextAddr s)\<rparr>)
                | Some (h, w1) \<Rightarrow>
                    (let l1 = (newLogger c)\<lparr>currentFile := Some h, logger := Some (FileSink h)\<rparr>
                     in case cleanupOldLogs rt l1 w1 of
                          (Some e, w2) \<Rightarrow>
                             (Inl CleanUpFailed,
                              s\<lparr>os := w2, heap := (heap s)(nextAddr s \<mapsto> l1\<lparr>ctxDone := True\<rparr>),
                                nextAddr := Suc (nextAddr s), tasks := insert (nextAddr s) (tasks s)\<rparr>)
                        | (None, w2) \<Rightarrow>
                             (Inr (nextAddr s),
                              s\<lparr>os := w2, heap := (heap s)(nextAddr s \<mapsto> l1),
                                nextAddr := Suc (nextAddr s), tasks := insert (nextAddr s) (tasks s),
                                globalLogger := Some (nextAddr s)\<rparr>)))))"
proof -
  have ot: "OutputType c = ''file''" using assms(2) by (simp add: sinkKind_def split: if_splits)
  show ?thesis
    using assms(1) ot
    by (simp add: InitGlobalLogger_def sinkKind_def Let_def newLogger_def setup_fresh logFileName_def
        split: option.splits prod.splits)
qed

lemma init_isl:
  assumes "globalLogger s = None"
  shows "isl (fst (InitGlobalLogger rt c s)) \<longleftrightarrow> constructionFails rt c (os s)"
proof -
  consider (inv) "sinkKind c \<noteq> ''console''" "sinkKind c \<noteq> ''file''"
    | (con) "sinkKind c = ''console''" | (fil) "sinkKind c = ''file''" by blast
  then show ?thesis
  proof cases
    case inv
    then show ?thesis using init_invalid [OF assms inv] by (simp add: constructionFails_def)
  next
    case con
    then show ?thesis using init_console [OF assms con] by (simp add: constructionFails_def)
  next
    case fil
    have cl: "(e = None) = (readDir w (logDir l) \<noteq> None)" if "cleanupOldLogs rt l w = (e, w')"
      for l w e w'
      using cleanup_fails_iff [of rt l w] that by auto
    show ?thesis
    proof (cases "LogDir c = [] \<or> FilePrefix c = []")
      case True
      then show ?thesis by (auto simp: init_file [OF assms fil] constructionFails_def fil)
    next
      case False
      show ?thesis
      proof (cases "mkdirAll (LogDir c) (os s)")
        case None
        with False show ?thesis by (simp add: init_file [OF assms fil] constructionFails_def fil)
      next
        case (Some w0)
        show ?thesis
        proof (cases "openAppend (LogDir c) (FilePrefix c @ ''_'' @ dateStr rt (now w0) @ ''.log'') w0")
          case None
          with False Some show ?thesis
            by (simp add: init_file [OF assms fil] constructionFails_def fil)
        next
          case (Some hw)
          obtain h w1 where hw: "hw = (h, w1)" by (cases hw)
          obtain e w2 where c2: "cleanupOldLogs rt
              ((newLogger c)\<lparr>currentFile := Some h, logger := Some (FileSink h)\<rparr>) w1 = (e, w2)"
            by (cases "cleanupOldLogs rt
              ((newLogger c)\<lparr>currentFile := Some h, logger := Some (FileSink h)\<rparr>) w1")
          from cl [OF c2] have "(e = None) = (readDir w1 (LogDir c) \<noteq> None)"
            by (simp add: newLogger_def)
          with False \<open>mkdirAll (LogDir c) (os s) = Some w0\<close> Some hw c2 show ?thesis
            by (cases e) (simp_all add: init_file [OF assms fil] constructionFails_def fil Let_def)
        qed
      qed
    qed
  qed
qed

lemma init_error_unpublished:
  assumes "globalLogger s = None" and "isl (fst (InitGlobalLogger rt c s))"
  shows "globalLogger (snd (InitGlobalLogger rt c s)) = None"
proof -
  consider (inv) "sinkKind c \<noteq> ''console''" "sinkKind c \<noteq> ''file''"
    | (con) "sinkKind c = ''console''" | (fil) "sinkKind c = ''file''" by blast
  then show ?thesis
  proof cases
    case inv
    then show ?thesis using assms(1) init_invalid [OF assms(1) inv] by simp
  next
    case con
    then show ?thesis using assms(2) init_console [OF assms(1) con] by simp
  next
    case fil
    show ?thesis using assms
      by (simp add: init_file [OF assms(1) fil] Let_def split: option.splits prod.splits if_splits)
  qed
qed

lemma constructionFails_retention:
  "constructionFails rt (c\<lparr>RetentionDays := r\<rparr>) w = constructionFails rt c w"
  by (simp add: constructionFails_def sinkKind_def cong: option.case_cong)

lemma init_success_fields:
  assumes "globalLogger s = None" and "InitGlobalLogger rt c s = (Inr p, s')"
  shows "p = nextAddr s \<and> globalLogger s' = Some p \<and> nextAddr s' = Suc p \<and>
         (\<forall>q. q \<noteq> p \<longrightarrow> heap s' q = heap s q) \<and>
         (\<exists>l. heap s' p = Some l \<and> level l = Level c \<and> outputType l = sinkKind c \<and>
              logDir l = LogDir c \<and> filePrefix l = FilePrefix c \<and>
              retentionDays l = (if RetentionDays c \<le> 0 then 7 else RetentionDays c) \<and>
              \<not> ctxDone l \<and> cancelFn l)"
proof -
  consider (inv) "sinkKind c \<noteq> ''console''" "sinkKind c \<noteq> ''file''"
    | (con) "sinkKind c = ''console''" | (fil) "sinkKind c = ''file''" by blast
  then show ?thesis
  proof cases
    case inv
    then show ?thesis using assms(2) init_invalid [OF assms(1) inv] by simp
  next
    case con
    then show ?thesis using assms(2) init_console [OF assms(1) con]
      by (auto simp: newLogger_def)
  next
    case fil
    show ?thesis using assms(2)
      by (auto simp: init_file [OF assms(1) fil] Let_def newLogger_def
          split: option.splits prod.splits if_splits)
  qed
qed

lemma initState_none: "globalLogger initState = None" by (simp add: initState_def)

lemma dateStr_noon: "utcDateStr noon = ''2023-07-04''" by code_simp

lemma fileConfig_ok: "\<not> constructionFails utcRuntime fileConfig (os initState)"
  by (simp add: constructionFails_def sinkKind_def fileConfig_def initState_def bareWorld_def
      mkdirAll_def openAppend_def bindFd_def readDir_def utcRuntime_def dateStr_noon)

text \<open>
  Claim C2. When no singleton exists, \<open>InitGlobalLogger\<close> returns an error exactly when
  construction fails in the sense of \<open>constructionFails\<close>: the sink kind (console when
  empty) is neither console nor file; or it is file and the directory or the prefix is
  missing; or, for a file sink, the directory cannot be created, today's file cannot be
  opened, or the first cleanup cannot list the directory. On every error the singleton
  stays absent, so \<open>GetLogger\<close> still returns nil. The retention value never decides
  between error and success, and a successful construction stores 7 for a value that is
  zero or negative.
\<close>

theorem init_error_iff:
  assumes "globalLogger s = None"
  shows "(isl (fst (InitGlobalLogger rt c s)) \<longleftrightarrow> constructionFails rt c (os s)) \<and>
         (isl (fst (InitGlobalLogger rt c s)) \<longrightarrow>
            GetLogger (snd (InitGlobalLogger rt c s)) = None) \<and>
         constructionFails rt (c\<lparr>RetentionDays := r\<rparr>) (os s) = constructionFails rt c (os s) \<and>
         (case fst (InitGlobalLogger rt c s) of
            Inl e \<Rightarrow> True
          | Inr p \<Rightarrow>
              map_option retentionDays (heap (snd (InitGlobalLogger rt c s)) p) =
                Some (if RetentionDays c \<le> 0 then 7 else RetentionDays c))"
proof -
  obtain res s' where R: "InitGlobalLogger rt c s = (res, s')"
    by (cases "InitGlobalLogger rt c s")
  have "map_option retentionDays (heap s' p) =
          Some (if RetentionDays c \<le> 0 then 7 else RetentionDays c)" if "res = Inr p" for p
    using init_success_fields [OF assms, of rt c p s'] R that by auto
  then show ?thesis
    using init_isl [OF assms, of rt c] init_error_unpublished [OF assms, of rt c] R
    by (auto simp: GetLogger_def constructionFails_retention split: sum.splits)
qed

theorem init_error_iff_witness:
  "globalLogger initState = None \<and>
   \<not> isl (fst (InitGlobalLogger utcRuntime fileConfig initState)) \<and>
   RetentionDays fileConfig = 0 \<and>
   (case fst (InitGlobalLogger utcRuntime fileConfig initState) of
      Inl e \<Rightarrow> False
    | Inr p \<Rightarrow>
        map_option retentionDays
          (heap (snd (InitGlobalLogger utcRuntime fileConfig initState)) p) = Some 7) \<and>
   isl (fst (InitGlobalLogger utcRuntime (fileConfig\<lparr>OutputType := ''syslog''\<rparr>) initState)) \<and>
   GetLogger (snd (InitGlobalLogger utcRuntime (fileConfig\<lparr>OutputType := ''syslog''\<rparr>)
      initState)) = None \<and>
   isl (fst (InitGlobalLogger utcRuntime (fileConfig\<lparr>LogDir := []\<rparr>) initState))"
proof -
  have bad: "constructionFails utcRuntime (fileConfig\<lparr>OutputType := ''syslog''\<rparr>) (os initState)"
    by (simp add: constructionFails_def sinkKind_def)
  have bad2: "constructionFails utcRuntime (fileConfig\<lparr>LogDir := []\<rparr>) (os initState)"
    by (simp add: constructionFails_def sinkKind_def fileConfig_def)
  show ?thesis
    using init_error_iff [OF initState_none, of utcRuntime fileConfig 0]
      init_error_iff [OF initState_none, of utcRuntime "fileConfig\<lparr>OutputType := ''syslog''\<rparr>" 0]
      init_error_iff [OF initState_none, of utcRuntime "fileConfig\<lparr>LogDir := []\<rparr>" 0]
      fileConfig_ok bad bad2 initState_none
    by (simp add: fileConfig_def split: sum.splits)
qed

section \<open>The registry: initialise, get, close, reset\<close>

lemma withLogger_frame [simp]:
  "globalLogger (withLogger p m s) = globalLogger s"
  "nextAddr (withLogger p m s) = nextAddr s"
  "tasks (withLogger p m s) = tasks s"
  by (simp_all add: withLogger_def split: option.splits prod.splits)

lemma withLogger_heap_None [simp]:
  "(heap (withLogger p m s) q = None) = (heap s q = None)"
  by (simp add: withLogger_def split: option.splits prod.splits)

lemma withLogger_heap_other: "q \<noteq> p \<Longrightarrow> heap (withLogger p m s) q = heap s q"
  by (simp add: withLogger_def split: option.splits prod.splits)

lemma withLogger_heap_same:
  "heap s p = Some l \<Longrightarrow> heap (withLogger p m s) p = Some (fst (m l (os s)))"
  by (simp add: withLogger_def split: option.splits prod.splits)

lemma reset_frame [simp]:
  "globalLogger (ResetGlobalLogger s) = None"
  "nextAddr (ResetGlobalLogger s) = nextAddr s"
  "(heap (ResetGlobalLogger s) q = None) = (heap s q = None)"
  by (simp_all add: ResetGlobalLogger_def split: option.splits)

lemma wfState_withLogger [simp]: "wfState (withLogger p m s) = wfState s"
  by (simp add: wfState_def)

lemma wfState_reset: "wfState s \<Longrightarrow> wfState (ResetGlobalLogger s)"
  by (simp add: wfState_def)

lemma wfState_initState: "wfState initState"
  by (simp add: wfState_def initState_def)

lemma wfState_init:
  assumes "wfState s"
  shows "wfState (snd (InitGlobalLogger rt c s))"
proof (cases "globalLogger s")
  case (Some g)
  with assms show ?thesis by (simp add: init_existing)
next
  case None
  consider (inv) "sinkKind c \<noteq> ''console''" "sinkKind c \<noteq> ''file''"
    | (con) "sinkKind c = ''console''" | (fil) "sinkKind c = ''file''" by blast
  then show ?thesis
  proof cases
    case inv
    then show ?thesis using assms init_invalid [OF None inv] by simp
  next
    case con
    then show ?thesis using assms init_console [OF None con] by (auto simp: wfState_def)
  next
    case fil
    show ?thesis using assms None
      by (auto simp: init_file [OF None fil] Let_def wfState_def
          split: option.splits prod.splits if_splits)
  qed
qed

lemma init_keeps_singleton:
  "globalLogger s \<noteq> None \<Longrightarrow> globalLogger (snd (InitGlobalLogger rt c s)) = globalLogger s"
  by (auto simp: init_existing)

lemma perform_keeps_singleton:
  assumes "globalLogger s \<noteq> None" and "op \<noteq> OpReset"
  shows "globalLogger (perform rt op s) = globalLogger s"
  using assms
  by (cases op)
    (auto simp: init_existing globalSeverity_def globalSetLevel_def taskTick_def taskDone_def
      split: option.splits)

lemma wfState_taskDone [simp]: "wfState (taskDone p s) = wfState s"
  by (simp add: taskDone_def wfState_def split: option.splits)

lemma wfState_clock [simp]: "wfState (s\<lparr>os := w\<rparr>) = wfState s"
  by (simp add: wfState_def)

lemma wfState_perform: "wfState s \<Longrightarrow> wfState (perform rt op s)"
  by (cases op)
    (simp_all add: wfState_init wfState_reset globalSeverity_def globalSetLevel_def taskTick_def
      split: option.splits)

lemma fileState_facts:
  "wfState fileState" "globalLogger fileState = Some 0"
  "\<exists>l. heap fileState 0 = Some l \<and> level l = InfoLevel \<and> outputType l = ''file'' \<and>
       cancelFn l"
proof -
  show "wfState fileState"
    unfolding fileState_def by (rule wfState_init [OF wfState_initState])
  obtain r s' where R: "InitGlobalLogger utcRuntime fileConfig initState = (r, s')"
    by (cases "InitGlobalLogger utcRuntime fileConfig initState")
  with init_isl [OF initState_none, of utcRuntime fileConfig] fileConfig_ok
  obtain p where p: "r = Inr p" by (cases r) auto
  from init_success_fields [OF initState_none R [unfolded p]]
  show "globalLogger fileState = Some 0"
    "\<exists>l. heap fileState 0 = Some l \<and> level l = InfoLevel \<and> outputType l = ''file'' \<and>
       cancelFn l"
    using R by (auto simp: fileState_def initState_def fileConfig_def sinkKind_def)
qed

text \<open>
  Claim C3. While a singleton exists, \<open>InitGlobalLogger\<close> with any configuration returns
  the existing pointer and leaves the whole process state as it was: the configuration
  is not read. After \<open>ResetGlobalLogger\<close> the singleton is absent, and an initialisation
  whose construction does not fail allocates an object at an address that held no object
  before (so it is none of the earlier instances), publishes it, and fills it from the
  new configuration, defaults applied.
\<close>

theorem init_once:
  assumes "wfState s"
  shows "(\<forall>g. globalLogger s = Some g \<longrightarrow> InitGlobalLogger rt c2 s = (Inr g, s)) \<and>
         GetLogger (ResetGlobalLogger s) = None \<and>
         (\<not> constructionFails rt c (os (ResetGlobalLogger s)) \<longrightarrow>
            (\<exists>p l s'. InitGlobalLogger rt c (ResetGlobalLogger s) = (Inr p, s') \<and>
               heap s p = None \<and> globalLogger s \<noteq> Some p \<and>
               GetLogger s' = Some p \<and> heap s' p = Some l \<and>
               level l = Level c \<and> outputType l = sinkKind c \<and> logDir l = LogDir c \<and>
               filePrefix l = FilePrefix c \<and>
               retentionDays l = (if RetentionDays c \<le> 0 then 7 else RetentionDays c) \<and>
               \<not> ctxDone l))"
proof (intro conjI allI impI)
  fix g assume "globalLogger s = Some g"
  then show "InitGlobalLogger rt c2 s = (Inr g, s)" by (rule init_existing)
next
  show "GetLogger (ResetGlobalLogger s) = None" by (simp add: GetLogger_def)
next
  let ?s1 = "ResetGlobalLogger s"
  assume ok: "\<not> constructionFails rt c (os ?s1)"
  have n: "globalLogger ?s1 = None" by simp
  obtain r s' where R: "InitGlobalLogger rt c ?s1 = (r, s')"
    by (cases "InitGlobalLogger rt c ?s1")
  with init_isl [OF n, of rt c] ok obtain p where p: "r = Inr p" by (cases r) auto
  from init_success_fields [OF n R [unfolded p]]
  obtain l where f: "p = nextAddr s" "globalLogger s' = Some p" "heap s' p = Some l"
    "level l = Level c" "outputType l = sinkKind c" "logDir l = LogDir c"
    "filePrefix l = FilePrefix c"
    "retentionDays l = (if RetentionDays c \<le> 0 then 7 else RetentionDays c)" "\<not> ctxDone l"
    by auto
  from assms f(1) have fresh: "heap s p = None" by (simp add: wfState_def)
  with assms have "globalLogger s \<noteq> Some p" by (auto simp: wfState_def)
  with R p f fresh
  show "\<exists>p l s'. InitGlobalLogger rt c ?s1 = (Inr p, s') \<and>
               heap s p = None \<and> globalLogger s \<noteq> Some p \<and>
               GetLogger s' = Some p \<and> heap s' p = Some l \<and>
               level l = Level c \<and> outputType l = sinkKind c \<and> logDir l = LogDir c \<and>
               filePrefix l = FilePrefix c \<and>
               retentionDays l = (if RetentionDays c \<le> 0 then 7 else RetentionDays c) \<and>
               \<not> ctxDone l"
    by (auto simp: GetLogger_def)
qed

theorem init_once_witness:
  "wfState fileState \<and> GetLogger fileState = Some 0 \<and>
   InitGlobalLogger utcRuntime consoleConfig fileState = (Inr 0, fileState) \<and>
   GetLogger (ResetGlobalLogger fileState) = None \<and>
   (\<exists>p l s'. InitGlobalLogger utcRuntime consoleConfig (ResetGlobalLogger fileState) = (Inr p, s') \<and>
       p \<noteq> 0 \<and> GetLogger s' = Some p \<and> heap s' p = Some l \<and>
       level l = WarnLevel \<and> outputType l = ''console'' \<and> retentionDays l = 3)"
proof -
  have ok: "\<not> constructionFails utcRuntime consoleConfig (os (ResetGlobalLogger fileState))"
    by (simp add: constructionFails_def sinkKind_def consoleConfig_def)
  from init_once [OF fileState_facts(1), of utcRuntime consoleConfig consoleConfig] ok
    fileState_facts(2)
  show ?thesis
    by (auto simp: fileState_facts GetLogger_def consoleConfig_def sinkKind_def)
qed

lemma Close_result:
  "currentFile (fst (Close l w)) = None \<and> (cancelFn l \<longrightarrow> ctxDone (fst (Close l w)))"
  by (simp add: Close_def closeCurrentFile_def split: option.splits prod.splits)

text \<open>
  Claim C10. \<open>Close\<close> does not touch the registry: \<open>GetLogger\<close> returns after it what it
  returned before. For an initialised singleton that is the same pointer, whose object is
  now closed (no current file, context cancelled). \<open>ResetGlobalLogger\<close> clears the
  pointer, and it is the only operation of the process that does: whatever else is
  performed on a state with a singleton (initialising again, closing, logging, rotating,
  cleaning up, the goroutine's steps), the singleton is still there afterwards.
\<close>

theorem close_keeps_singleton:
  "GetLogger (perform rt (OpClose p) s) = GetLogger s \<and>
   (\<forall>g l. globalLogger s = Some g \<and> heap s g = Some l \<longrightarrow>
      GetLogger (perform rt (OpClose g) s) = Some g \<and>
      heap (perform rt (OpClose g) s) g = Some (fst (Close l (os s))) \<and>
      currentFile (fst (Close l (os s))) = None \<and>
      (cancelFn l \<longrightarrow> ctxDone (fst (Close l (os s))))) \<and>
   GetLogger (perform rt OpReset s) = None \<and>
   (\<forall>op. globalLogger s \<noteq> None \<and> GetLogger (perform rt op s) = None \<longrightarrow> op = OpReset)"
proof (intro conjI allI impI)
  show "GetLogger (perform rt (OpClose p) s) = GetLogger s" by (simp add: GetLogger_def)
next
  fix g l assume a: "globalLogger s = Some g \<and> heap s g = Some l"
  then show "GetLogger (perform rt (OpClose g) s) = Some g" by (simp add: GetLogger_def)
  from a show "heap (perform rt (OpClose g) s) g = Some (fst (Close l (os s)))"
    by (simp add: withLogger_heap_same)
  show "currentFile (fst (Close l (os s))) = None" using Close_result by blast
  assume "cancelFn l" then show "ctxDone (fst (Close l (os s)))" using Close_result by blast
next
  show "GetLogger (perform rt OpReset s) = None" by (simp add: GetLogger_def)
next
  fix op assume a: "globalLogger s \<noteq> None \<and> GetLogger (perform rt op s) = None"
  show "op = OpReset"
  proof (rule ccontr)
    assume "op \<noteq> OpReset"
    with a perform_keeps_singleton [of s op rt] show False by (simp add: GetLogger_def)
  qed
qed

theorem close_keeps_singleton_witness:
  "GetLogger fileState = Some 0 \<and>
   GetLogger (perform utcRuntime (OpClose 0) fileState) = Some 0 \<and>
   (\<exists>l. heap (perform utcRuntime (OpClose 0) fileState) 0 = Some l \<and>
        currentFile l = None \<and> ctxDone l) \<and>
   GetLogger (perform utcRuntime (OpSeverity CallInfo 0 ''late'' [])
      (perform utcRuntime (OpClose 0) fileState)) = Some 0 \<and>
   GetLogger (perform utcRuntime OpReset fileState) = None"
proof -
  obtain l where l: "heap fileState 0 = Some l" and c: "cancelFn l"
    using fileState_facts(3) by blast
  let ?s1 = "perform utcRuntime (OpClose 0) fileState"
  from close_keeps_singleton [of utcRuntime 0 fileState] fileState_facts(2) l c
  have 1: "GetLogger ?s1 = Some 0" and 2: "heap ?s1 0 = Some (fst (Close l (os fileState)))"
    and 3: "currentFile (fst (Close l (os fileState))) = None"
    and 4: "ctxDone (fst (Close l (os fileState)))"
    and 5: "GetLogger (perform utcRuntime OpReset fileState) = None"
    by blast+
  from 1 have "globalLogger ?s1 \<noteq> None" by (simp add: GetLogger_def)
  moreover from close_keeps_singleton [of utcRuntime 0 ?s1]
  have "globalLogger ?s1 \<noteq> None \<and> GetLogger (perform utcRuntime op ?s1) = None
          \<longrightarrow> op = OpReset" for op
    by blast
  from this [of "OpSeverity CallInfo 0 ''late'' []"]
  have "globalLogger ?s1 \<noteq> None \<longrightarrow>
        GetLogger (perform utcRuntime (OpSeverity CallInfo 0 ''late'' []) ?s1) \<noteq> None"
    by (auto simp del: perform.simps)
  ultimately have "GetLogger (perform utcRuntime (OpSeverity CallInfo 0 ''late'' []) ?s1) \<noteq> None"
    by blast
  then have 6: "GetLogger (perform utcRuntime (OpSeverity CallInfo 0 ''late'' []) ?s1) = Some 0"
    using 1 by (simp add: GetLogger_def)
  from 1 2 3 4 5 6 fileState_facts(2) show ?thesis by (simp add: GetLogger_def)
qed

section \<open>Close, and logging after it\<close>

lemma closeCurrentFile_cases:
  "closeCurrentFile l w = (l1, w1) \<Longrightarrow>
     currentFile l1 = None \<and> logger l1 = logger l \<and> level l1 = level l \<and>
     (\<forall>h. currentFile l = Some h \<or> fds w h = None \<longrightarrow> fds w1 h = None) \<and>
     stdout w1 = stdout w \<and> dirs w1 = dirs w"
  by (auto simp: closeCurrentFile_def closeFile_def warn_def split: option.splits if_splits)




lemma invoke_fds [simp]: "fds (invoke rt c format v l w) = fds w"
  by (simp add: invoke_eq log_def split: option.splits)

lemma nextFd_fileWrite [simp]: "nextFd (fileWrite h ln w) = nextFd w"
  by (simp add: fileWrite_def split: option.splits prod.splits)

lemma nextFd_sinkWrite [simp]: "nextFd (sinkWrite out ln w) = nextFd w"
  by (cases out) simp_all

lemma invoke_nextFd [simp]: "nextFd (invoke rt c format v l w) = nextFd w"
  by (simp add: invoke_eq log_def split: option.splits)


lemma removeFile_fds: "removeFile d n w = Some w' \<Longrightarrow> fds w' = fds w \<and> nextFd w' = nextFd w"
  by (auto simp: removeFile_def split: if_splits option.splits)

lemma log_fds [simp]: "fds (log rt tag format v l w) = fds w" "nextFd (log rt tag format v l w) = nextFd w"
  by (simp_all add: log_def split: option.splits)

lemma warn_fds [simp]: "fds (warn ln w) = fds w" "nextFd (warn ln w) = nextFd w"
  by (simp_all add: warn_def)

lemma deleteOld_fds [simp]:
  "fds (deleteOld rt l xs w) = fds w \<and> nextFd (deleteOld rt l xs w) = nextFd w"
proof (induction xs arbitrary: w)
  case Nil
  show ?case by simp
next
  case (Cons x xs)
  show ?case
  proof (cases "removeFile (logDir l) x w")
    case None
    then show ?thesis using Cons.IH by simp
  next
    case (Some w')
    with removeFile_fds [OF Some] show ?thesis using Cons.IH by simp
  qed
qed

lemma cleanup_fds [simp]:
  "fds (snd (cleanupOldLogs rt l w)) = fds w" "nextFd (snd (cleanupOldLogs rt l w)) = nextFd w"
  by (simp_all add: cleanupOldLogs_def Let_def split: option.splits prod.splits)

lemma cleanup_fds_eq:
  "cleanupOldLogs rt l w = (e, w') \<Longrightarrow> fds w' = fds w \<and> nextFd w' = nextFd w"
  using cleanup_fds [of rt l w] by simp

lemma openAppend_fds:
  "openAppend d n w = Some (h, w') \<Longrightarrow>
     h = nextFd w \<and> fds w' = (fds w)(h \<mapsto> (d, n)) \<and> nextFd w' = Suc h"
  by (auto simp: openAppend_def bindFd_def split: if_splits option.splits)

lemma setup_fileBacked:
  assumes "setupFileLogger rt l w = (e, l1, w1)" and "e = None \<or> fileBacked l w"
  shows "fileBacked l1 w1"
proof -
  obtain l0 w0 where c: "closeCurrentFile l w = (l0, w0)" by (cases "closeCurrentFile l w")
  note cc = closeCurrentFile_cases [OF c]
  show ?thesis
  proof (cases "openAppend (logDir l0) (logFileName rt l0 w0) w0")
    case None
    with assms(1) c have eq: "e = Some OpenLogFileFailed" "l1 = l0" "w1 = w0"
      by (simp_all add: setupFileLogger_def)
    with assms(2) have "fileBacked l w" by simp
    then show ?thesis using cc eq
      by (auto simp: fileBacked_def split: option.splits sink.splits)
  next
    case (Some hw)
    obtain h w2 where hw: "hw = (h, w2)" by (cases hw)
    with Some assms(1) c have "l1 = l0\<lparr>currentFile := Some h, logger := Some (FileSink h)\<rparr>"
      by (simp add: setupFileLogger_def)
    then show ?thesis by (simp add: fileBacked_def)
  qed
qed


lemma fileBacked_fds: "fds w' = fds w \<Longrightarrow> fileBacked l w' = fileBacked l w"
  by (simp add: fileBacked_def split: option.splits sink.splits)

lemma rotate_fileBacked:
  assumes "rotateAndCleanup rt l w = (l1, w1)" and "fileBacked l w"
  shows "fileBacked l1 w1"
proof -
  obtain e l0 w0 where s: "setupFileLogger rt l w = (e, l0, w0)"
    by (cases "setupFileLogger rt l w") auto
  from setup_fileBacked [OF s] assms(2) have fb: "fileBacked l0 w0" by simp
  define w2 where "w2 = (case e of None \<Rightarrow> w0 | Some x \<Rightarrow> warn ''Error rotating log file'' w0)"
  obtain e2 w3 where c: "cleanupOldLogs rt l0 w2 = (e2, w3)"
    by (cases "cleanupOldLogs rt l0 w2")
  have "fds w2 = fds w0" by (simp add: w2_def split: option.splits)
  with cleanup_fds_eq [OF c] have f3: "fds w3 = fds w0" by simp
  from assms(1) s c have "l1 = l0"
    and "w1 = (case e2 of None \<Rightarrow> w3 | Some x \<Rightarrow> warn ''Error cleaning up old logs'' w3)"
    by (simp_all add: rotateAndCleanup_def Let_def w2_def)
  with f3 have "l1 = l0" and "fds w1 = fds w0" by (simp_all split: option.splits)
  with fb fileBacked_fds [of w1 w0 l0] show ?thesis by simp
qed

lemma init_file_backed:
  assumes "globalLogger s = None" and "sinkKind c = ''file''"
    and "InitGlobalLogger rt c s = (Inr p, s')"
  shows "\<exists>l. heap s' p = Some l \<and> fileBacked l (os s')"
proof -
  have "case heap s' p of None \<Rightarrow> False | Some l \<Rightarrow> fileBacked l (os s')"
    using assms(3)
    by (auto simp: init_file [OF assms(1,2)] Let_def fileBacked_def newLogger_def
        split: option.splits prod.splits if_splits)
  then show ?thesis by (cases "heap s' p") simp_all
qed






section \<open>Retention cleanup\<close>

subsection \<open>The scan\<close>

lemma scanOld_fst:
  "fst (scanOld w d pre ct fs old warns) =
     old @ map eName (filter (\<lambda>f. (\<not> eIsDir f \<and> prefix pre (eName f) \<and> suffix ''.log'' (eName f)
        \<and> eModTime f < ct) \<and> \<not> failInfo w d (eName f)) fs)"
  by (induction fs arbitrary: old warns) auto

lemma scanOld_oldNames:
  "fst (scanOld w (logDir l) (filePrefix l @ ''_'') (cutoffOf rt l w) files [] []) =
     oldNames rt l w files"
  by (simp add: scanOld_fst oldNames_def isExpired_def isCandidate_def)

lemma statModTime_stderr [simp]: "statModTime (w\<lparr>stderr := x\<rparr>) = statModTime w"
  by (simp add: statModTime_def fun_eq_iff)

lemma cleanup_unfold:
  assumes "readDir w (logDir l) = Some files"
  shows "cleanupOldLogs rt l w =
     (None, deleteOld rt l (sortSlice rt (statModTime w (logDir l)) (oldNames rt l w files))
        (w\<lparr>stderr := stderr w @
            snd (scanOld w (logDir l) (filePrefix l @ ''_'') (cutoffOf rt l w) files [] [])\<rparr>))"
proof -
  obtain old warns where
    sc: "scanOld w (logDir l) (filePrefix l @ ''_'') (cutoffOf rt l w) files [] [] = (old, warns)"
    by (cases "scanOld w (logDir l) (filePrefix l @ ''_'') (cutoffOf rt l w) files [] []")
  with scanOld_oldNames [of w l rt files] have "old = oldNames rt l w files" by simp
  with assms sc show ?thesis by (simp add: cleanupOldLogs_def Let_def)
qed

lemma cleanup_readDir_fails:
  "readDir w (logDir l) = None \<Longrightarrow> cleanupOldLogs rt l w = (Some ReadLogDirFailed, w)"
  by (simp add: cleanupOldLogs_def)

subsection \<open>Frame properties of the primitive steps\<close>

lemma eName_appendLine [simp]: "eName (appendLine n ln t e) = eName e"
  by (simp add: appendLine_def)

lemma names_map_appendLine [simp]:
  "eName ` appendLine n ln t ` A = eName ` A"
  by (simp add: image_image)

lemma namesIn_fileWrite [simp]: "namesIn (fileWrite h ln w) d = namesIn w d"
  by (simp add: namesIn_def fileWrite_def split: option.splits prod.splits)

lemma namesIn_log [simp]: "namesIn (log rt tag format v l w) d = namesIn w d"
proof (cases "logger l")
  case None
  then show ?thesis by (simp add: log_def)
next
  case (Some out)
  then show ?thesis by (cases out) (simp_all add: log_def, simp add: namesIn_def)
qed

lemma namesIn_warn [simp]: "namesIn (warn ln w) d = namesIn w d"
  by (simp add: namesIn_def warn_def)

lemma failRemove_fileWrite [simp]: "failRemove (fileWrite h ln w) = failRemove w"
  by (simp add: fileWrite_def split: option.splits prod.splits)

lemma failRemove_log [simp]: "failRemove (log rt tag format v l w) = failRemove w"
proof (cases "logger l")
  case None
  then show ?thesis by (simp add: log_def)
next
  case (Some out)
  then show ?thesis by (cases out) (simp_all add: log_def)
qed

lemma failRemove_warn [simp]: "failRemove (warn ln w) = failRemove w"
  by (simp add: warn_def)

lemma unlinked_fileWrite [simp]: "unlinked (fileWrite h ln w) = unlinked w"
  by (simp add: fileWrite_def split: option.splits prod.splits)

lemma unlinked_log [simp]: "unlinked (log rt tag format v l w) = unlinked w"
proof (cases "logger l")
  case None
  then show ?thesis by (simp add: log_def)
next
  case (Some out)
  then show ?thesis by (cases out) (simp_all add: log_def)
qed

lemma unlinked_warn [simp]: "unlinked (warn ln w) = unlinked w"
  by (simp add: warn_def)

lemma removeFile_Some_iff:
  "(\<exists>w'. removeFile d n w = Some w') \<longleftrightarrow> \<not> failRemove w d n \<and> n \<in> namesIn w d"
  by (auto simp: removeFile_def namesIn_def split: option.splits)

lemma names_filter: "eName ` set (filter (\<lambda>e. eName e \<noteq> n) es) = eName ` set es - {n}"
  by auto

lemma removeFile_effect:
  assumes "removeFile d n w = Some w'"
  shows "namesIn w' d' = (if d' = d then namesIn w d - {n} else namesIn w d')"
    and "failRemove w' = failRemove w" and "unlinked w' = unlinked w @ [(d, n)]"
proof -
  from assms obtain es where es: "dirs w d = Some es"
    and w': "w' = w\<lparr>dirs := (dirs w)(d \<mapsto> filter (\<lambda>e. eName e \<noteq> n) es),
                     unlinked := unlinked w @ [(d, n)]\<rparr>"
    by (auto simp: removeFile_def split: option.splits if_splits)
  show "namesIn w' d' = (if d' = d then namesIn w d - {n} else namesIn w d')"
    using es names_filter [of n es] by (simp add: w' namesIn_def del: set_filter)
  show "failRemove w' = failRemove w" by (simp add: w')
  show "unlinked w' = unlinked w @ [(d, n)]" by (simp add: w')
qed


subsection \<open>The deletion loop\<close>

lemma removeFile_None_iff:
  "removeFile d n w = None \<longleftrightarrow> failRemove w d n \<or> n \<notin> namesIn w d"
  using removeFile_Some_iff [of d n w] by auto

lemma deleteOld_failRemove [simp]: "failRemove (deleteOld rt l xs w) = failRemove w"
proof (induction xs arbitrary: w)
  case Nil
  show ?case by simp
next
  case (Cons x xs)
  show ?case
  proof (cases "removeFile (logDir l) x w")
    case None
    then show ?thesis by (simp add: Cons.IH)
  next
    case (Some w')
    with removeFile_effect(2) [OF Some] show ?thesis by (simp add: Cons.IH)
  qed
qed


lemma deleteOld_unlinked:
  assumes "distinct xs"
  shows "unlinked (deleteOld rt l xs w) =
     unlinked w @ map (Pair (logDir l))
       (filter (\<lambda>n. n \<in> namesIn w (logDir l) \<and> \<not> failRemove w (logDir l) n) xs)"
  using assms
proof (induction xs arbitrary: w)
  case Nil
  show ?case by simp
next
  case (Cons x xs)
  then have d: "distinct xs" and nx: "x \<notin> set xs" by simp_all
  show ?case
  proof (cases "removeFile (logDir l) x w")
    case None
    with removeFile_None_iff [of "logDir l" x w]
    have "failRemove w (logDir l) x \<or> x \<notin> namesIn w (logDir l)" by simp
    with None show ?thesis by (auto simp: Cons.IH [OF d])
  next
    case (Some w')
    from removeFile_Some_iff [of "logDir l" x w] Some
    have ok: "\<not> failRemove w (logDir l) x" "x \<in> namesIn w (logDir l)" by auto
    have "filter (\<lambda>n. n \<in> namesIn w (logDir l) - {x} \<and> \<not> failRemove w (logDir l) n) xs =
          filter (\<lambda>n. n \<in> namesIn w (logDir l) \<and> \<not> failRemove w (logDir l) n) xs"
      using nx by (intro filter_cong) auto
    with Some ok removeFile_effect(1) [OF Some, of "logDir l"] removeFile_effect(2,3) [OF Some]
    show ?thesis
      by (simp add: Cons.IH [OF d])
  qed
qed


subsection \<open>A whole cleanup run\<close>

lemma sortSliceOk_facts:
  assumes "sortSliceOk rt"
  shows "mset (sortSlice rt key xs) = mset xs" "set (sortSlice rt key xs) = set xs"
    "distinct (sortSlice rt key xs) = distinct xs" "sorted (map key (sortSlice rt key xs))"
proof -
  from assms show m: "mset (sortSlice rt key xs) = mset xs"
    and "sorted (map key (sortSlice rt key xs))"
    by (simp_all add: sortSliceOk_def)
  from m show "set (sortSlice rt key xs) = set xs" by (rule mset_eq_setD)
  from m show "distinct (sortSlice rt key xs) = distinct xs" by (rule mset_eq_imp_distinct_iff)
qed

lemma readDir_Some: "readDir w d = Some files \<Longrightarrow> dirs w d = Some files"
  by (simp add: readDir_def split: if_splits)

lemma oldNames_subset:
  "dirs w (logDir l) = Some files \<Longrightarrow> set (oldNames rt l w files) \<subseteq> namesIn w (logDir l)"
  by (auto simp: oldNames_def namesIn_def)

lemma oldNames_distinct: "distinct (map eName files) \<Longrightarrow> distinct (oldNames rt l w files)"
  by (simp add: oldNames_def distinct_map_filter)

lemma oldNames_member:
  assumes "distinct (map eName files)" and "f \<in> set files"
  shows "eName f \<in> set (oldNames rt l w files) \<longleftrightarrow>
         isExpired rt l w f \<and> \<not> failInfo w (logDir l) (eName f)"
proof -
  have "g = f" if "g \<in> set files" "eName g = eName f" for g
    using assms that by (meson distinct_map inj_onD)
  then show ?thesis using assms(2) by (auto simp: oldNames_def)
qed

lemma namesIn_stderr [simp]: "namesIn (w\<lparr>stderr := x\<rparr>) d = namesIn w d"
  by (simp add: namesIn_def)


lemma cleanup_deletions:
  assumes "sortSliceOk rt" and "readDir w (logDir l) = Some files"
    and "distinct (map eName files)"
  shows "deletions w (snd (cleanupOldLogs rt l w)) =
     map (Pair (logDir l))
       (filter (\<lambda>n. \<not> failRemove w (logDir l) n)
          (sortSlice rt (statModTime w (logDir l)) (oldNames rt l w files)))"
proof -
  let ?xs = "sortSlice rt (statModTime w (logDir l)) (oldNames rt l w files)"
  let ?w1 = "w\<lparr>stderr := stderr w @
            snd (scanOld w (logDir l) (filePrefix l @ ''_'') (cutoffOf rt l w) files [] [])\<rparr>"
  have d: "distinct ?xs"
    using sortSliceOk_facts(3) [OF assms(1)] oldNames_distinct [OF assms(3)] by simp
  have sub: "set ?xs \<subseteq> namesIn w (logDir l)"
    using sortSliceOk_facts(2) [OF assms(1)] oldNames_subset [OF readDir_Some [OF assms(2)]]
    by simp
  have n1: "namesIn ?w1 (logDir l) = namesIn w (logDir l)" by simp
  have "filter (\<lambda>n. n \<in> namesIn w (logDir l) \<and> \<not> failRemove w (logDir l) n) ?xs =
        filter (\<lambda>n. \<not> failRemove w (logDir l) n) ?xs"
    using sub by (intro filter_cong) auto
  then show ?thesis
    by (simp add: cleanup_unfold [OF assms(2)] deleteOld_unlinked [OF d] deletions_def n1)
qed

lemma utcRuntime_sortOk: "sortSliceOk utcRuntime"
  by (simp add: sortSliceOk_def utcRuntime_def)

lemma cutoff_clean: "cutoffOf utcRuntime exLogger cleanWorld = cutoffInstant"
  by (simp add: cutoffOf_def utcRuntime_def exLogger_def cleanWorld_def exWorld_def noon_def
      cutoffInstant_def)


lemma distinct_clean: "distinct (map eName cleanFiles)"
  by (simp add: cleanFiles_def)



section \<open>The order of deletions\<close>














lemma exLogger_dir: "logDir exLogger = ''logs''"
  by (simp add: exLogger_def)



section \<open>Cleanup leaves everything but its candidates alone\<close>

text \<open>
  What a write through the sink, a removal and the deletion loop leave in place: an entry
  stays, with its time and content, unless it is the file the sink appends to or a name
  that is removed.
\<close>

lemma fileWrite_keeps_entry:
  assumes "dirs w d' = Some es" and "e \<in> set es"
    and "\<not> (\<not> eIsDir e \<and> fds w h = Some (d', eName e))"
  shows "\<exists>es'. dirs (fileWrite h ln w) d' = Some es' \<and> e \<in> set es'"
proof (cases "fds w h")
  case None
  with assms show ?thesis by (simp add: fileWrite_def)
next
  case (Some dn)
  obtain d n where dn: "dn = (d, n)" by (cases dn)
  show ?thesis
  proof (cases "dirs w d")
    case None
    with Some dn assms show ?thesis by (simp add: fileWrite_def)
  next
    case (Some es0)
    show ?thesis
    proof (cases "d = d'")
      case False
      with Some \<open>fds w h = Some dn\<close> dn assms show ?thesis by (simp add: fileWrite_def)
    next
      case True
      with assms(3) \<open>fds w h = Some dn\<close> dn have "eIsDir e \<or> eName e \<noteq> n" by auto
      then have "appendLine n ln (now w) e = e" by (auto simp: appendLine_def)
      with assms(2) have "e \<in> appendLine n ln (now w) ` set es" by force
      with True Some \<open>fds w h = Some dn\<close> dn assms(1) show ?thesis
        by (simp add: fileWrite_def)
    qed
  qed
qed

lemma log_keeps_entry:
  assumes "dirs w d' = Some es" and "e \<in> set es" and "\<not> sinkTarget l w d' e"
  shows "\<exists>es'. dirs (log rt tag format v l w) d' = Some es' \<and> e \<in> set es'"
proof (cases "logger l")
  case None
  with assms show ?thesis by (simp add: log_def)
next
  case (Some out)
  show ?thesis
  proof (cases out)
    case Stdout
    with Some assms show ?thesis by (simp add: log_def)
  next
    case (FileSink h)
    with Some assms(3) have "\<not> (\<not> eIsDir e \<and> fds w h = Some (d', eName e))"
      by (simp add: sinkTarget_def)
    from fileWrite_keeps_entry [OF assms(1,2) this] Some FileSink show ?thesis
      by (simp add: log_def)
  qed
qed

lemma sinkTarget_fds: "fds w' = fds w \<Longrightarrow> sinkTarget l w' d e = sinkTarget l w d e"
  by (simp add: sinkTarget_def split: option.splits sink.splits)

lemma removeFile_keeps_entry:
  assumes "removeFile d n w = Some w'" and "dirs w d' = Some es" and "e \<in> set es"
    and "d' \<noteq> d \<or> eName e \<noteq> n"
  shows "\<exists>es'. dirs w' d' = Some es' \<and> e \<in> set es'"
  using assms by (auto simp: removeFile_def split: option.splits if_splits)

lemma warn_dirs [simp]: "dirs (warn ln w) = dirs w"
  by (simp add: warn_def)

lemma deleteOld_keeps_entry:
  assumes "dirs w d' = Some es" and "e \<in> set es"
    and "d' \<noteq> logDir l \<or> eName e \<notin> set xs" and "\<not> sinkTarget l w d' e"
  shows "\<exists>es'. dirs (deleteOld rt l xs w) d' = Some es' \<and> e \<in> set es'"
  using assms
proof (induction xs arbitrary: w es)
  case Nil
  then show ?case by simp
next
  case (Cons x xs)
  have rest: "d' \<noteq> logDir l \<or> eName e \<notin> set xs" using Cons.prems(3) by auto
  show ?case
  proof (cases "removeFile (logDir l) x w")
    case None
    let ?w1 = "warn (''Warning: failed to delete old log file '' @ joinPath (logDir l) x) w"
    have f0: "fds ?w1 = fds w" by simp
    have st: "\<not> sinkTarget l ?w1 d' e"
      using Cons.prems(4) sinkTarget_fds [OF f0, of l d' e] by simp
    from Cons.IH [OF _ Cons.prems(2) rest st] Cons.prems(1) None show ?thesis by simp
  next
    case (Some w')
    have "d' \<noteq> logDir l \<or> eName e \<noteq> x" using Cons.prems(3) by auto
    from removeFile_keeps_entry [OF Some Cons.prems(1,2) this]
    obtain es1 where es1: "dirs w' d' = Some es1" "e \<in> set es1" by blast
    have f1: "fds w' = fds w" using removeFile_fds [OF Some] by simp
    have st1: "\<not> sinkTarget l w' d' e" using Cons.prems(4) sinkTarget_fds [OF f1] by simp
    let ?w2 = "log rt ''INFO'' ''Deleted old log file: %s'' [Str (joinPath (logDir l) x)] l w'"
    from log_keeps_entry [OF es1 st1]
    obtain es2 where es2: "dirs ?w2 d' = Some es2" "e \<in> set es2" by blast
    have f2: "fds ?w2 = fds w" using f1 by simp
    have st2: "\<not> sinkTarget l ?w2 d' e"
      using Cons.prems(4) sinkTarget_fds [OF f2, of l d' e] by simp
    from Cons.IH [OF es2 rest st2] Some show ?thesis by simp
  qed
qed


lemma oldNames_candidates:
  "n \<in> set (oldNames rt l w files) \<Longrightarrow> \<exists>f \<in> set files. eName f = n \<and> isCandidate l f"
  by (auto simp: oldNames_def isExpired_def)

lemma deletions_same [simp]: "deletions w w = []"
  by (simp add: deletions_def)

lemma ownSink_not_target:
  assumes "sinkIsOwnLog l w" and "\<not> (d' = logDir l \<and> isCandidate l e)"
  shows "\<not> sinkTarget l w d' e"
  using assms
  by (auto simp: sinkIsOwnLog_def sinkTarget_def isCandidate_def split: option.splits sink.splits)

lemma setup_sinkIsOwnLog:
  assumes "setupFileLogger rt l w = (None, l1, w1)"
  shows "sinkIsOwnLog l1 w1"
proof -
  obtain l0 w0 where c: "closeCurrentFile l w = (l0, w0)" by (cases "closeCurrentFile l w")
  have l0: "logDir l0 = logDir l" "filePrefix l0 = filePrefix l"
    using c by (auto simp: closeCurrentFile_def split: option.splits prod.splits)
  from assms c obtain h w2 where
    o: "openAppend (logDir l0) (logFileName rt l0 w0) w0 = Some (h, w2)"
    and l1: "l1 = l0\<lparr>currentFile := Some h, logger := Some (FileSink h)\<rparr>" and w1: "w1 = w2"
    by (auto simp: setupFileLogger_def split: option.splits)
  from openAppend_fds [OF o] have "fds w1 h = Some (logDir l0, logFileName rt l0 w0)"
    by (simp add: w1)
  then show ?thesis
    by (simp add: sinkIsOwnLog_def l1 logFileName_def suffix_def)
qed

text \<open>
  Claim C5. For every state of the file system, \<open>cleanupOldLogs\<close> deletes only entries of
  the logger's directory that are not directories and whose name starts with the prefix
  followed by \<open>_\<close> and ends with \<open>.log\<close>; every other entry of every directory, whatever its
  age, and every subdirectory, is still there afterwards with the same name, kind,
  modification time and content. \<^verbatim>\<open>sort.Slice\<close> is taken by its contract, the names of
  a directory are distinct, and the file the sink appends to is one of the logger's own
  logs, as \<open>setupFileLogger\<close> binds it (lemma \<open>setup_sinkIsOwnLog\<close>): the run writes a line
  to the sink for each deletion.
\<close>

theorem cleanup_touches_only_candidates:
  assumes "sortSliceOk rt" and "distinctNames w (logDir l)" and "sinkIsOwnLog l w"
  shows "(\<forall>dn \<in> set (deletions w (snd (cleanupOldLogs rt l w))).
            fst dn = logDir l \<and>
            (\<exists>es f. dirs w (logDir l) = Some es \<and> f \<in> set es \<and> eName f = snd dn \<and>
               isCandidate l f)) \<and>
         (\<forall>d' es e. dirs w d' = Some es \<and> e \<in> set es \<and>
               \<not> (d' = logDir l \<and> isCandidate l e) \<longrightarrow>
            (\<exists>es'. dirs (snd (cleanupOldLogs rt l w)) d' = Some es' \<and> e \<in> set es'))"
proof (cases "readDir w (logDir l)")
  case None
  then show ?thesis by (simp add: cleanup_readDir_fails)
next
  case (Some files)
  note rd = Some
  have dirs: "dirs w (logDir l) = Some files" by (rule readDir_Some [OF rd])
  with assms(2) have dist: "distinct (map eName files)" by (simp add: distinctNames_def)
  let ?xs = "sortSlice rt (statModTime w (logDir l)) (oldNames rt l w files)"
  let ?w1 = "w\<lparr>stderr := stderr w @
            snd (scanOld w (logDir l) (filePrefix l @ ''_'') (cutoffOf rt l w) files [] [])\<rparr>"
  have xs: "set ?xs = set (oldNames rt l w files)" by (rule sortSliceOk_facts(2) [OF assms(1)])
  have a: "fst dn = logDir l \<and>
            (\<exists>es f. dirs w (logDir l) = Some es \<and> f \<in> set es \<and> eName f = snd dn \<and>
               isCandidate l f)"
    if "dn \<in> set (deletions w (snd (cleanupOldLogs rt l w)))" for dn
  proof -
    from that have "fst dn = logDir l" and "snd dn \<in> set (oldNames rt l w files)"
      by (auto simp: cleanup_deletions [OF assms(1) rd dist] xs)
    with oldNames_candidates [of "snd dn" rt l w files] dirs show ?thesis by blast
  qed
  have b: "\<exists>es'. dirs (snd (cleanupOldLogs rt l w)) d' = Some es' \<and> e \<in> set es'"
    if h: "dirs w d' = Some es \<and> e \<in> set es \<and> \<not> (d' = logDir l \<and> isCandidate l e)"
    for d' es e
  proof -
    from h have es: "dirs ?w1 d' = Some es" "e \<in> set es" by simp_all
    have nt: "\<not> sinkTarget l ?w1 d' e"
    proof -
      have f: "fds ?w1 = fds w" by simp
      from ownSink_not_target [OF assms(3)] h sinkTarget_fds [OF f, of l d' e]
      show ?thesis by blast
    qed
    have nm: "d' \<noteq> logDir l \<or> eName e \<notin> set ?xs"
    proof (cases "d' = logDir l")
      case False
      then show ?thesis by simp
    next
      case True
      with h dirs have e: "e \<in> set files" "\<not> isCandidate l e" by auto
      have "eName e \<notin> set (oldNames rt l w files)"
        using oldNames_member [OF dist e(1), of rt l w] e(2) by (simp add: isExpired_def)
      with xs show ?thesis by simp
    qed
    from deleteOld_keeps_entry [OF es nm nt] show ?thesis
      by (simp add: cleanup_unfold [OF rd])
  qed
  from a b show ?thesis by blast
qed


lemma exLogger_ownSink: "sinkIsOwnLog exLogger cleanWorld"
  by (simp add: sinkIsOwnLog_def exLogger_def cleanWorld_def exWorld_def suffix_def)

lemma distinctNames_clean: "distinctNames cleanWorld (logDir exLogger)"
  by (simp add: distinctNames_def exLogger_dir cleanWorld_def distinct_clean)

theorem cleanup_touches_only_candidates_witness:
  "sortSliceOk utcRuntime \<and> distinctNames cleanWorld (logDir exLogger) \<and>
   sinkIsOwnLog exLogger cleanWorld \<and>
   (\<exists>es'. dirs (snd (cleanupOldLogs utcRuntime exLogger cleanWorld)) ''logs'' = Some es' \<and>
      \<lparr>eName = ''otherfile.log'', eIsDir = False, eModTime = noon - 259200, eData = []\<rparr>
        \<in> set es' \<and>
      \<lparr>eName = ''app_archive.log'', eIsDir = True, eModTime = noon - 259200, eData = []\<rparr>
        \<in> set es') \<and>
   (''logs'', ''otherfile.log'') \<notin>
      set (deletions cleanWorld (snd (cleanupOldLogs utcRuntime exLogger cleanWorld))) \<and>
   (''logs'', ''app_archive.log'') \<notin>
      set (deletions cleanWorld (snd (cleanupOldLogs utcRuntime exLogger cleanWorld)))"
proof -
  let ?o = "\<lparr>eName = ''otherfile.log'', eIsDir = False, eModTime = noon - 259200, eData = []\<rparr>"
  let ?a = "\<lparr>eName = ''app_archive.log'', eIsDir = True, eModTime = noon - 259200, eData = []\<rparr>"
  let ?W = "snd (cleanupOldLogs utcRuntime exLogger cleanWorld)"
  note t = cleanup_touches_only_candidates [OF utcRuntime_sortOk distinctNames_clean
      exLogger_ownSink]
  have d: "dirs cleanWorld ''logs'' = Some cleanFiles" by (simp add: cleanWorld_def)
  have m: "?o \<in> set cleanFiles" "?a \<in> set cleanFiles" by (simp_all add: cleanFiles_def)
  have nc: "\<not> isCandidate exLogger ?o" "\<not> isCandidate exLogger ?a"
    by (simp_all add: isCandidate_def exLogger_def)
  from t d m(1) nc(1) obtain es1 where 1: "dirs ?W ''logs'' = Some es1" "?o \<in> set es1"
    by blast
  from t d m(2) nc(2) obtain es2 where 2: "dirs ?W ''logs'' = Some es2" "?a \<in> set es2"
    by blast
  have cand: "isCandidate exLogger f" if "f \<in> set cleanFiles" "eName f = n"
    "(''logs'', n) \<in> set (deletions cleanWorld ?W)" for f n
  proof -
    from t that(3) obtain g where g: "g \<in> set cleanFiles" "eName g = n" "isCandidate exLogger g"
      using d by (auto simp: exLogger_dir)
    from distinct_clean g(1,2) that(1,2) have "g = f"
      by (metis distinct_map inj_onD)
    with g(3) show ?thesis by simp
  qed
  from cand [OF m(1)] nc(1) have 3: "(''logs'', ''otherfile.log'') \<notin> set (deletions cleanWorld ?W)"
    by auto
  from cand [OF m(2)] nc(2) have 4: "(''logs'', ''app_archive.log'') \<notin> set (deletions cleanWorld ?W)"
    by auto
  from 1 2 3 4 utcRuntime_sortOk distinctNames_clean exLogger_ownSink show ?thesis by auto
qed

section \<open>Rotation on the same day\<close>

lemma closeCurrentFile_frame:
  assumes "closeCurrentFile l w = (l0, w0)"
  shows "l0 = l\<lparr>currentFile := None\<rparr>" "dirs w0 = dirs w" "now w0 = now w"
    "failOpen w0 = failOpen w" "nextFd w0 = nextFd w" "unlinked w0 = unlinked w"
    "failReadDir w0 = failReadDir w" "failInfo w0 = failInfo w" "failRemove w0 = failRemove w"
    "currentFile l = Some h \<Longrightarrow> fds w0 h = None"
  using assms
  by (auto simp: closeCurrentFile_def closeFile_def warn_def split: option.splits if_splits)

lemma openAppend_existing:
  assumes "fileData w d n = Some content" and "\<not> failOpen w d n"
  shows "openAppend d n w = Some (bindFd d n w)"
  using assms by (auto simp: openAppend_def fileData_def split: option.splits)

lemma fileData_dirs: "dirs w' = dirs w \<Longrightarrow> fileData w' = fileData w"
  by (simp add: fileData_def fun_eq_iff)

lemma setup_existing:
  assumes "fileData w (logDir l) (logFileName rt l w) = Some content"
    and "\<not> failOpen w (logDir l) (logFileName rt l w)"
  shows "\<exists>w'. setupFileLogger rt l w =
           (None, l\<lparr>currentFile := Some (nextFd w), logger := Some (FileSink (nextFd w))\<rparr>, w') \<and>
         fds w' (nextFd w) = Some (logDir l, logFileName rt l w) \<and>
         (\<forall>h. currentFile l = Some h \<and> h \<noteq> nextFd w \<longrightarrow> fds w' h = None) \<and>
         dirs w' = dirs w \<and> now w' = now w \<and> unlinked w' = unlinked w \<and>
         failReadDir w' = failReadDir w \<and> failInfo w' = failInfo w \<and>
         failRemove w' = failRemove w"
proof -
  obtain l0 w0 where c: "closeCurrentFile l w = (l0, w0)" by (cases "closeCurrentFile l w")
  note f = closeCurrentFile_frame [OF c]
  have n: "logFileName rt l0 w0 = logFileName rt l w" "logDir l0 = logDir l"
    by (simp_all add: f logFileName_def)
  have "fileData w0 (logDir l) (logFileName rt l w) = Some content"
    using assms(1) fileData_dirs [OF f(2)] by simp
  from openAppend_existing [OF this] assms(2)
  have o: "openAppend (logDir l) (logFileName rt l w) w0 =
           Some (bindFd (logDir l) (logFileName rt l w) w0)"
    by (simp add: f)
  have "setupFileLogger rt l w =
     (None, l\<lparr>currentFile := Some (nextFd w), logger := Some (FileSink (nextFd w))\<rparr>,
      snd (bindFd (logDir l) (logFileName rt l w) w0))"
    by (simp add: setupFileLogger_def c n o) (simp add: bindFd_def f)
  moreover have "\<forall>h. currentFile l = Some h \<and> h \<noteq> nextFd w \<longrightarrow>
      fds (snd (bindFd (logDir l) (logFileName rt l w) w0)) h = None"
    using f(10) by (simp add: bindFd_def f)
  ultimately show ?thesis by (simp add: bindFd_def f)
qed


lemma find_filter_imp:
  "(\<And>e. P e \<Longrightarrow> Q e) \<Longrightarrow> find P (filter Q es) = find P es"
  by (induction es) auto

lemma removeFile_fileData:
  assumes "removeFile d x w = Some w'" and "d' \<noteq> d \<or> x \<noteq> n"
  shows "fileData w' d' n = fileData w d' n"
proof -
  from assms(1) obtain es where es: "dirs w d = Some es"
    and w': "w' = w\<lparr>dirs := (dirs w)(d \<mapsto> filter (\<lambda>e. eName e \<noteq> x) es),
                    unlinked := unlinked w @ [(d, x)]\<rparr>"
    by (auto simp: removeFile_def split: option.splits if_splits)
  show ?thesis
  proof (cases "d' = d")
    case False
    then show ?thesis by (simp add: w' fileData_def)
  next
    case True
    with assms(2) have "x \<noteq> n" by simp
    then have "find (\<lambda>e. eName e = n \<and> \<not> eIsDir e) (filter (\<lambda>e. eName e \<noteq> x) es) =
               find (\<lambda>e. eName e = n \<and> \<not> eIsDir e) es"
      by (intro find_filter_imp) auto
    with True es show ?thesis by (simp add: w' fileData_def)
  qed
qed

lemma fileData_warn [simp]: "fileData (warn ln w) = fileData w"
  by (simp add: warn_def fileData_def fun_eq_iff)

lemma deleteOld_fileData:
  assumes "logger l = Some (FileSink h)" and "fds w h = Some (logDir l, n)"
    and "n \<notin> set xs" and "fileData w (logDir l) n = Some c"
  shows "\<exists>ys. unlinked (deleteOld rt l xs w) = unlinked w @ ys \<and>
              fileData (deleteOld rt l xs w) (logDir l) n = Some (c @ map (deletionLine rt) ys)"
  using assms(2-)
proof (induction xs arbitrary: w c)
  case Nil
  then show ?case by simp
next
  case (Cons x xs)
  have nx: "n \<notin> set xs" "x \<noteq> n" using Cons.prems(2) by auto
  show ?case
  proof (cases "removeFile (logDir l) x w")
    case None
    let ?w1 = "warn (''Warning: failed to delete old log file '' @ joinPath (logDir l) x) w"
    have "fds ?w1 h = Some (logDir l, n)" "fileData ?w1 (logDir l) n = Some c"
      using Cons.prems by simp_all
    from Cons.IH [OF this(1) nx(1) this(2)] None show ?thesis by simp
  next
    case (Some w')
    let ?ln = "sprintf rt (''[%s] '' @ ''Deleted old log file: %s'')
                 [Str ''INFO'', Str (joinPath (logDir l) x)]"
    let ?w2 = "log rt ''INFO'' ''Deleted old log file: %s'' [Str (joinPath (logDir l) x)] l w'"
    have f1: "fds w' h = Some (logDir l, n)"
      using removeFile_fds [OF Some] Cons.prems(1) by simp
    have d1: "fileData w' (logDir l) n = Some c"
      using removeFile_fileData [OF Some, of "logDir l" n] nx(2) Cons.prems(3) by simp
    have w2: "?w2 = fileWrite h ?ln w'" using assms(1) by (simp add: log_def)
    have d2: "fileData ?w2 (logDir l) n = Some (c @ [?ln])"
      using fileData_fileWrite [OF f1 d1] w2 by simp
    have f2: "fds ?w2 h = Some (logDir l, n)" using f1 by simp
    have u2: "unlinked ?w2 = unlinked w @ [(logDir l, x)]"
      using removeFile_effect(3) [OF Some] by simp
    from Cons.IH [OF f2 nx(1) d2] obtain ys where
      ys: "unlinked (deleteOld rt l xs ?w2) = unlinked ?w2 @ ys"
        "fileData (deleteOld rt l xs ?w2) (logDir l) n = Some ((c @ [?ln]) @ map (deletionLine rt) ys)"
      by blast
    have "?ln = deletionLine rt (logDir l, x)" by (simp add: deletionLine_def)
    with ys u2 Some show ?thesis by simp
  qed
qed


lemma fileData_stderr [simp]: "fileData (w\<lparr>stderr := x\<rparr>) = fileData w"
  by (simp add: fileData_def fun_eq_iff)

lemma fileTime_entry:
  assumes "fileTime w d n = Some t"
  shows "\<exists>es e. dirs w d = Some es \<and> e \<in> set es \<and> eName e = n \<and> \<not> eIsDir e \<and> eModTime e = t"
proof -
  from assms obtain es e where es: "dirs w d = Some es"
    and e: "find (\<lambda>e. eName e = n \<and> \<not> eIsDir e) es = Some e" and t: "eModTime e = t"
    by (auto simp: fileTime_def split: option.splits)
  from e have "e \<in> set es" by (auto simp: find_Some_iff)
  with find_satisfies [OF e] es t show ?thesis by blast
qed

lemma cleanup_fileData:
  assumes "sortSliceOk rt" and "distinctNames w (logDir l)"
    and "logger l = Some (FileSink h)" and "fds w h = Some (logDir l, n)"
    and "fileData w (logDir l) n = Some c"
    and "fileTime w (logDir l) n = Some t" and "cutoffOf rt l w \<le> t"
  shows "fileData (snd (cleanupOldLogs rt l w)) (logDir l) n =
           Some (c @ map (deletionLine rt) (deletions w (snd (cleanupOldLogs rt l w))))"
proof (cases "readDir w (logDir l)")
  case None
  with assms(5) show ?thesis by (simp add: cleanup_readDir_fails deletions_def)
next
  case (Some files)
  have dirs: "dirs w (logDir l) = Some files" by (rule readDir_Some [OF Some])
  with assms(2) have dist: "distinct (map eName files)" by (simp add: distinctNames_def)
  from fileTime_entry [OF assms(6)] dirs obtain e where
    e: "e \<in> set files" "eName e = n" "eModTime e = t" by auto
  let ?xs = "sortSlice rt (statModTime w (logDir l)) (oldNames rt l w files)"
  let ?w1 = "w\<lparr>stderr := stderr w @
            snd (scanOld w (logDir l) (filePrefix l @ ''_'') (cutoffOf rt l w) files [] [])\<rparr>"
  have "\<not> isExpired rt l w e" using e(3) assms(7) by (simp add: isExpired_def)
  with oldNames_member [OF dist e(1), of rt l w] e(2)
  have "n \<notin> set (oldNames rt l w files)" by simp
  then have nx: "n \<notin> set ?xs" by (simp add: sortSliceOk_facts(2) [OF assms(1)])
  have f1: "fds ?w1 h = Some (logDir l, n)" using assms(4) by simp
  have d1: "fileData ?w1 (logDir l) n = Some c" using assms(5) by simp
  from deleteOld_fileData [OF assms(3) f1 nx d1, of rt] obtain ys where
    ys: "unlinked (deleteOld rt l ?xs ?w1) = unlinked ?w1 @ ys"
      "fileData (deleteOld rt l ?xs ?w1) (logDir l) n = Some (c @ map (deletionLine rt) ys)"
    by blast
  from ys(1) have "deletions w (deleteOld rt l ?xs ?w1) = ys" by (simp add: deletions_def)
  with ys(2) show ?thesis by (simp add: cleanup_unfold [OF Some])
qed

lemma invoke_fileData:
  assumes "logger l = Some (FileSink h)" and "fds w h = Some (d, n)"
    and "fileData w d n = Some c" and "level l \<le> severity s"
  shows "fileData (invoke rt s format v l w) d n =
           Some (c @ [sprintf rt (''[%s] '' @ format) (Str (tagOf s) # v)])"
  using fileData_fileWrite [OF assms(2,3)] assms(1,4) by (simp add: invoke_eq log_def)

lemma rotate_deletions_clean:
  "deletions cleanWorld (snd (rotateAndCleanup utcRuntime exLogger cleanWorld)) =
     [(''logs'', ''app_2023-07-01.log''), (''logs'', ''app_2023-07-02.log'')]"
  by code_simp

lemma deletionLine_clean:
  "deletionLine utcRuntime (''logs'', ''app_2023-07-01.log'') =
     ''[INFO] Deleted old log file: logs/app_2023-07-01.log''"
  "deletionLine utcRuntime (''logs'', ''app_2023-07-02.log'') =
     ''[INFO] Deleted old log file: logs/app_2023-07-02.log''"
  by code_simp+

lemma line_after_rotation:
  "goSprintf ''[%s] Log after rotation test'' [Str ''INFO''] = ''[INFO] Log after rotation test''"
  by code_simp


lemma logFileName_clean: "logFileName utcRuntime exLogger cleanWorld = ''app_2023-07-04.log''"
  by (simp add: logFileName_def utcRuntime_def exLogger_def cleanWorld_def exWorld_def
      dateStr_noon)

lemma today_clean:
  "fileData cleanWorld ''logs'' ''app_2023-07-04.log'' = Some [''[INFO] started'']"
  "fileTime cleanWorld ''logs'' ''app_2023-07-04.log'' = Some (noon - 60)"
  "\<not> failOpen cleanWorld ''logs'' ''app_2023-07-04.log''"
  "fds cleanWorld 0 = Some (''logs'', ''app_2023-07-04.log'')"
  "nextFd cleanWorld = 1"
  by (simp_all add: fileData_def fileTime_def cleanWorld_def cleanFiles_def exWorld_def)

text \<open>
  Claim C8. Rotation when the file of today's name is already there, as it is when the
  logger was built or rotated earlier on the same day, and the system does not refuse the
  open: \<open>setupFileLogger\<close> returns no error, closes the handle it held and binds a new
  handle to the same directory and the same name \<open>prefix_date.log\<close>; no directory entry
  is changed, so the file keeps all its lines, and the next severity call that passes
  the threshold appends its line after them. The same holds for \<open>rotateAndCleanup\<close>, the
  rotation followed by the cleanup, provided the file is not itself expired (its
  modification time is not before the cutoff): afterwards the file holds the lines it
  had, followed by one line for each file the cleanup deleted, and a later message
  comes after those.
\<close>

theorem rotate_same_day:
  assumes "fileData w (logDir l) (logFileName rt l w) = Some content"
    and "\<not> failOpen w (logDir l) (logFileName rt l w)"
  shows
    "(case setupFileLogger rt l w of
        (e, l', w') \<Rightarrow>
          e = None \<and>
          l' = l\<lparr>currentFile := Some (nextFd w), logger := Some (FileSink (nextFd w))\<rparr> \<and>
          fds w' (nextFd w) = Some (logDir l, logFileName rt l w) \<and>
          (\<forall>h. currentFile l = Some h \<and> h \<noteq> nextFd w \<longrightarrow> fds w' h = None) \<and>
          dirs w' = dirs w \<and>
          fileData w' (logDir l) (logFileName rt l w) = Some content \<and>
          (\<forall>s format v. level l \<le> severity s \<longrightarrow>
             fileData (invoke rt s format v l' w') (logDir l) (logFileName rt l w) =
               Some (content @ [sprintf rt (''[%s] '' @ format) (Str (tagOf s) # v)]))) \<and>
     (sortSliceOk rt \<and> distinctNames w (logDir l) \<and>
      (\<exists>t. fileTime w (logDir l) (logFileName rt l w) = Some t \<and> cutoffOf rt l w \<le> t) \<longrightarrow>
        (case rotateAndCleanup rt l w of
           (l', w') \<Rightarrow>
             l' = l\<lparr>currentFile := Some (nextFd w), logger := Some (FileSink (nextFd w))\<rparr> \<and>
             fds w' (nextFd w) = Some (logDir l, logFileName rt l w) \<and>
             fileData w' (logDir l) (logFileName rt l w) =
               Some (content @ map (deletionLine rt) (deletions w w')) \<and>
             (\<forall>s format v. level l \<le> severity s \<longrightarrow>
                fileData (invoke rt s format v l' w') (logDir l) (logFileName rt l w) =
                  Some (content @ map (deletionLine rt) (deletions w w') @
                        [sprintf rt (''[%s] '' @ format) (Str (tagOf s) # v)]))))"
proof -
  let ?d = "logDir l" and ?n = "logFileName rt l w"
  let ?l = "l\<lparr>currentFile := Some (nextFd w), logger := Some (FileSink (nextFd w))\<rparr>"
  from setup_existing [OF assms] obtain w1 where
    s: "setupFileLogger rt l w = (None, ?l, w1)"
    and f: "fds w1 (nextFd w) = Some (?d, ?n)"
    and cl: "\<forall>h. currentFile l = Some h \<and> h \<noteq> nextFd w \<longrightarrow> fds w1 h = None"
    and fr: "dirs w1 = dirs w" "now w1 = now w" "unlinked w1 = unlinked w"
    by blast
  have lg: "logger ?l = Some (FileSink (nextFd w))" by simp
  have d1: "fileData w1 ?d ?n = Some content" using assms(1) fileData_dirs [OF fr(1)] by simp
  have a: "fileData (invoke rt s format v ?l w1) ?d ?n =
             Some (content @ [sprintf rt (''[%s] '' @ format) (Str (tagOf s) # v)])"
    if "level l \<le> severity s" for s format v
    using invoke_fileData [OF lg f d1, of s rt format v] that by simp
  have part1: "case setupFileLogger rt l w of
        (e, l', w') \<Rightarrow>
          e = None \<and> l' = ?l \<and> fds w' (nextFd w) = Some (?d, ?n) \<and>
          (\<forall>h. currentFile l = Some h \<and> h \<noteq> nextFd w \<longrightarrow> fds w' h = None) \<and>
          dirs w' = dirs w \<and> fileData w' ?d ?n = Some content \<and>
          (\<forall>s format v. level l \<le> severity s \<longrightarrow>
             fileData (invoke rt s format v l' w') ?d ?n =
               Some (content @ [sprintf rt (''[%s] '' @ format) (Str (tagOf s) # v)]))"
    using f cl fr(1) d1 a by (simp add: s)
  have part2: "case rotateAndCleanup rt l w of
           (l', w') \<Rightarrow>
             l' = ?l \<and> fds w' (nextFd w) = Some (?d, ?n) \<and>
             fileData w' ?d ?n = Some (content @ map (deletionLine rt) (deletions w w')) \<and>
             (\<forall>s format v. level l \<le> severity s \<longrightarrow>
                fileData (invoke rt s format v l' w') ?d ?n =
                  Some (content @ map (deletionLine rt) (deletions w w') @
                        [sprintf rt (''[%s] '' @ format) (Str (tagOf s) # v)]))"
    if so: "sortSliceOk rt" and dn: "distinctNames w ?d"
      and t: "fileTime w ?d ?n = Some t" "cutoffOf rt l w \<le> t" for t
  proof -
    obtain e2 w3 where c: "cleanupOldLogs rt ?l w1 = (e2, w3)"
      by (cases "cleanupOldLogs rt ?l w1")
    define w4 where "w4 = (case e2 of None \<Rightarrow> w3 | Some x \<Rightarrow> warn ''Error cleaning up old logs'' w3)"
    have r: "rotateAndCleanup rt l w = (?l, w4)"
      by (simp add: rotateAndCleanup_def s c w4_def)
    have dn1: "distinctNames w1 (logDir ?l)" using dn fr(1) by (simp add: distinctNames_def)
    have t1: "fileTime w1 (logDir ?l) ?n = Some t" using t(1) fr(1) by (simp add: fileTime_def)
    have c1: "cutoffOf rt ?l w1 \<le> t" using t(2) fr(2) by (simp add: cutoffOf_def)
    have f1: "fds w1 (nextFd w) = Some (logDir ?l, ?n)" using f by simp
    have d1': "fileData w1 (logDir ?l) ?n = Some content" using d1 by simp
    from cleanup_fileData [OF so dn1 lg f1 d1' t1 c1] c
    have d3: "fileData w3 ?d ?n = Some (content @ map (deletionLine rt) (deletions w1 w3))"
      by simp
    have dl: "deletions w w4 = deletions w1 w3"
      by (simp add: deletions_def fr(3) w4_def split: option.splits)
    have d4: "fileData w4 ?d ?n = Some (content @ map (deletionLine rt) (deletions w w4))"
      using d3 dl by (simp add: w4_def split: option.splits)
    have f4: "fds w4 (nextFd w) = Some (?d, ?n)"
      using cleanup_fds_eq [OF c] f by (simp add: w4_def split: option.splits)
    have b: "fileData (invoke rt s format v ?l w4) ?d ?n =
             Some (content @ map (deletionLine rt) (deletions w w4) @
                   [sprintf rt (''[%s] '' @ format) (Str (tagOf s) # v)])"
      if "level l \<le> severity s" for s format v
      using invoke_fileData [OF lg f4 d4, of s rt format v] that by simp
    from d4 f4 b show ?thesis by (simp add: r)
  qed
  show ?thesis
  proof (rule conjI)
    show "case setupFileLogger rt l w of
        (e, l', w') \<Rightarrow>
          e = None \<and> l' = ?l \<and> fds w' (nextFd w) = Some (?d, ?n) \<and>
          (\<forall>h. currentFile l = Some h \<and> h \<noteq> nextFd w \<longrightarrow> fds w' h = None) \<and>
          dirs w' = dirs w \<and> fileData w' ?d ?n = Some content \<and>
          (\<forall>s format v. level l \<le> severity s \<longrightarrow>
             fileData (invoke rt s format v l' w') ?d ?n =
               Some (content @ [sprintf rt (''[%s] '' @ format) (Str (tagOf s) # v)]))"
      by (rule part1)
  qed (rule impI, elim conjE exE, rule part2, assumption+)
qed


theorem rotate_same_day_witness:
  "logFileName utcRuntime exLogger cleanWorld = ''app_2023-07-04.log'' \<and>
   currentFile exLogger = Some 0 \<and>
   fds cleanWorld 0 = Some (''logs'', ''app_2023-07-04.log'') \<and>
   fileData cleanWorld ''logs'' ''app_2023-07-04.log'' = Some [''[INFO] started''] \<and>
   \<not> failOpen cleanWorld ''logs'' ''app_2023-07-04.log'' \<and>
   fst (setupFileLogger utcRuntime exLogger cleanWorld) = None \<and>
   fst (snd (setupFileLogger utcRuntime exLogger cleanWorld)) =
     exLogger\<lparr>currentFile := Some 1, logger := Some (FileSink 1)\<rparr> \<and>
   fds (snd (snd (setupFileLogger utcRuntime exLogger cleanWorld))) 1 =
     Some (''logs'', ''app_2023-07-04.log'') \<and>
   fds (snd (snd (setupFileLogger utcRuntime exLogger cleanWorld))) 0 = None \<and>
   dirs (snd (snd (setupFileLogger utcRuntime exLogger cleanWorld))) = dirs cleanWorld \<and>
   fileData
     (invoke utcRuntime CallInfo ''Log after rotation test'' []
        (fst (snd (setupFileLogger utcRuntime exLogger cleanWorld)))
        (snd (snd (setupFileLogger utcRuntime exLogger cleanWorld))))
     ''logs'' ''app_2023-07-04.log'' =
     Some [''[INFO] started'', ''[INFO] Log after rotation test''] \<and>
   sortSliceOk utcRuntime \<and> distinctNames cleanWorld ''logs'' \<and>
   fileTime cleanWorld ''logs'' ''app_2023-07-04.log'' = Some (noon - 60) \<and>
   cutoffOf utcRuntime exLogger cleanWorld \<le> noon - 60 \<and>
   fst (rotateAndCleanup utcRuntime exLogger cleanWorld) =
     exLogger\<lparr>currentFile := Some 1, logger := Some (FileSink 1)\<rparr> \<and>
   fileData (snd (rotateAndCleanup utcRuntime exLogger cleanWorld))
     ''logs'' ''app_2023-07-04.log'' =
     Some [''[INFO] started'',
           ''[INFO] Deleted old log file: logs/app_2023-07-01.log'',
           ''[INFO] Deleted old log file: logs/app_2023-07-02.log''] \<and>
   fileData
     (invoke utcRuntime CallInfo ''Log after rotation test'' []
        (fst (rotateAndCleanup utcRuntime exLogger cleanWorld))
        (snd (rotateAndCleanup utcRuntime exLogger cleanWorld)))
     ''logs'' ''app_2023-07-04.log'' =
     Some [''[INFO] started'',
           ''[INFO] Deleted old log file: logs/app_2023-07-01.log'',
           ''[INFO] Deleted old log file: logs/app_2023-07-02.log'',
           ''[INFO] Log after rotation test'']"
proof -
  have d: "logDir exLogger = ''logs''" and c: "currentFile exLogger = Some 0"
    and lv: "level exLogger \<le> severity CallInfo"
    by (simp_all add: exLogger_def)
  have sp: "sprintf utcRuntime = goSprintf" by (simp add: utcRuntime_def)
  have dn: "distinctNames cleanWorld ''logs''" using distinctNames_clean by (simp add: d)
  have ct: "cutoffOf utcRuntime exLogger cleanWorld \<le> noon - 60"
    by (simp add: cutoff_clean cutoffInstant_def noon_def)
  have a: "fileData cleanWorld (logDir exLogger) (logFileName utcRuntime exLogger cleanWorld) =
           Some [''[INFO] started'']"
    and b: "\<not> failOpen cleanWorld (logDir exLogger) (logFileName utcRuntime exLogger cleanWorld)"
    by (simp_all add: d logFileName_clean today_clean)
  note t = rotate_same_day [OF a b, unfolded d logFileName_clean today_clean(5)]
  note p = t [THEN conjunct1, unfolded case_prod_beta]
  note p1 = p [THEN conjunct1]
  note p2 = p [THEN conjunct2, THEN conjunct1]
  note p3 = p [THEN conjunct2, THEN conjunct2, THEN conjunct1]
  note p4 = p [THEN conjunct2, THEN conjunct2, THEN conjunct2, THEN conjunct1, THEN spec,
      THEN mp, of 0]
  note p5 = p [THEN conjunct2, THEN conjunct2, THEN conjunct2, THEN conjunct2, THEN conjunct1]
  note p7 = p [THEN conjunct2, THEN conjunct2, THEN conjunct2, THEN conjunct2, THEN conjunct2,
      THEN conjunct2, THEN spec, THEN spec, THEN spec, THEN mp, OF lv,
      of "''Log after rotation test''" "[]"]
  have p4': "fds (snd (snd (setupFileLogger utcRuntime exLogger cleanWorld))) 0 = None"
    using p4 c by simp
  have p7': "fileData
     (invoke utcRuntime CallInfo ''Log after rotation test'' []
        (fst (snd (setupFileLogger utcRuntime exLogger cleanWorld)))
        (snd (snd (setupFileLogger utcRuntime exLogger cleanWorld))))
     ''logs'' ''app_2023-07-04.log'' =
     Some [''[INFO] started'', ''[INFO] Log after rotation test'']"
    using p7 by (simp add: sp line_after_rotation del: invoke.simps)
  have h: "sortSliceOk utcRuntime \<and> distinctNames cleanWorld ''logs'' \<and>
      (\<exists>t. fileTime cleanWorld ''logs'' ''app_2023-07-04.log'' = Some t \<and>
           cutoffOf utcRuntime exLogger cleanWorld \<le> t)"
    using utcRuntime_sortOk dn today_clean(2) ct by blast
  note q = t [THEN conjunct2, THEN mp, OF h, unfolded case_prod_beta]
  note q1 = q [THEN conjunct1]
  note q3 = q [THEN conjunct2, THEN conjunct2, THEN conjunct1]
  note q4 = q [THEN conjunct2, THEN conjunct2, THEN conjunct2, THEN spec, THEN spec, THEN spec,
      THEN mp, OF lv, of "''Log after rotation test''" "[]"]
  have q3': "fileData (snd (rotateAndCleanup utcRuntime exLogger cleanWorld))
     ''logs'' ''app_2023-07-04.log'' =
     Some [''[INFO] started'',
           ''[INFO] Deleted old log file: logs/app_2023-07-01.log'',
           ''[INFO] Deleted old log file: logs/app_2023-07-02.log'']"
    using q3 by (simp add: rotate_deletions_clean deletionLine_clean)
  have q4': "fileData
     (invoke utcRuntime CallInfo ''Log after rotation test'' []
        (fst (rotateAndCleanup utcRuntime exLogger cleanWorld))
        (snd (rotateAndCleanup utcRuntime exLogger cleanWorld)))
     ''logs'' ''app_2023-07-04.log'' =
     Some [''[INFO] started'',
           ''[INFO] Deleted old log file: logs/app_2023-07-01.log'',
           ''[INFO] Deleted old log file: logs/app_2023-07-02.log'',
           ''[INFO] Log after rotation test'']"
    using q4
    by (simp add: sp line_after_rotation rotate_deletions_clean deletionLine_clean
        del: invoke.simps)
  show ?thesis
    by (intro conjI)
      (rule logFileName_clean c today_clean p1 p2 p3 p4' p5 p7' utcRuntime_sortOk dn ct q1
        q3' q4')+
qed

end
